theory Spec2Isabelle
  imports Complex_Main
begin

section \<open>Python values, errors and the configuration\<close>

text \<open>
  The model is a shallow embedding of \<^verbatim>\<open>mclsq.py\<close>. Floating-point numbers are
  idealised as real numbers (no rounding, no NaN, no infinities); NumPy vectors are lists
  of reals and NumPy matrices are lists of rows. Exceptions are values of the type
  \<open>error\<close>; a function that can raise returns \<open>error + 'a\<close>.
\<close>

datatype error = ValueError string | TypeError string | AttributeError string

text \<open>
  The dynamically typed arguments that the constructor inspects with \<^verbatim>\<open>isinstance\<close>:
  integers, floats, strings and \<^verbatim>\<open>None\<close>. (Booleans, which Python counts among the
  integers, are left out.)
\<close>

datatype pyval = PInt int | PFloat real | PStr string | PNone

fun is_int :: "pyval \<Rightarrow> bool" where
  "is_int (PInt _) = True"
| "is_int _ = False"

fun is_float :: "pyval \<Rightarrow> bool" where
  "is_float (PFloat _) = True"
| "is_float _ = False"

fun is_str :: "pyval \<Rightarrow> bool" where
  "is_str (PStr _) = True"
| "is_str _ = False"

text \<open>The numeric value of an \<^verbatim>\<open>int\<close> or \<^verbatim>\<open>float\<close>; only read behind an \<^verbatim>\<open>isinstance\<close> guard.\<close>

fun num :: "pyval \<Rightarrow> real" where
  "num (PInt i) = of_int i"
| "num (PFloat x) = x"
| "num _ = 0"

fun int_of :: "pyval \<Rightarrow> int" where
  "int_of (PInt i) = i"
| "int_of _ = 0"

fun str_of :: "pyval \<Rightarrow> string" where
  "str_of (PStr s) = s"
| "str_of _ = []"

text \<open>\<^verbatim>\<open>str.lower()\<close> on the ASCII range: the letters A..Z are mapped to a..z.\<close>

definition lower_chr :: "char \<Rightarrow> char" where
  "lower_chr c =
     (let n = (of_char c :: nat) in if 65 \<le> n \<and> n \<le> 90 then char_of (n + 32) else c)"

definition str_lower :: "string \<Rightarrow> string" where
  "str_lower s = map lower_chr s"

record config =
  S0 :: real
  K :: real
  T :: real
  r :: real
  mu :: real
  sigma :: real
  N :: nat
  M :: nat
  option_payoff :: string
  degree :: int
  dt :: real
  samples :: int
  lower :: real
  lamb :: real
  picard :: int

record spread_config = config +
  K2 :: real
  R :: real

text \<open>\<^verbatim>\<open>_get_opt_payoff\<close>: the payoff kind, normalised case-insensitively.\<close>

definition get_opt_payoff :: "pyval \<Rightarrow> error + string" where
  "get_opt_payoff opt_payoff =
     (if \<not> is_str opt_payoff then Inl (TypeError ''Option type should be a string!'')
      else if str_lower (str_of opt_payoff) = ''call'' then Inr ''call''
      else if str_lower (str_of opt_payoff) = ''put'' then Inr ''put''
      else Inl (TypeError ''Invalid option type! It should be call or put''))"

text \<open>
  \<^verbatim>\<open>BSDEOptionPricingEuropean.__init__\<close>. The checks run in the order of the source. The
  arguments the constructor never inspects (\<^verbatim>\<open>samples\<close>, \<^verbatim>\<open>mu\<close>, \<^verbatim>\<open>picard\<close>) are taken
  with the type their later uses need. The validated positive integers \<^verbatim>\<open>N\<close> and \<^verbatim>\<open>M\<close>
  are stored as naturals.
\<close>

definition init ::
  "pyval \<Rightarrow> pyval \<Rightarrow> pyval \<Rightarrow> pyval \<Rightarrow> pyval \<Rightarrow> pyval \<Rightarrow> pyval \<Rightarrow> pyval \<Rightarrow> int \<Rightarrow> pyval \<Rightarrow> pyval
     \<Rightarrow> real \<Rightarrow> int \<Rightarrow> error + config" where
  "init S0' K' r' sigma' T' N' M' lower' samples' option_payoff' degree' mu' picard' =
     (if \<not> (is_int S0' \<or> is_float S0') \<or> num S0' \<le> 0 then
        Inl (ValueError ''S0 must be positive.'')
      else if \<not> (is_int K' \<or> is_float K') \<or> num K' \<le> 0 then
        Inl (ValueError ''K must be positive.'')
      else if \<not> (is_int T' \<or> is_float T') \<or> num T' \<le> 0 then
        Inl (ValueError ''T must be positive.'')
      else if \<not> (is_int r' \<or> is_float r') then
        Inl (ValueError ''r must be integer or float.'')
      else if \<not> (is_int sigma' \<or> is_float sigma') \<or> num sigma' \<le> 0 then
        Inl (ValueError ''sigma must be positive.'')
      else if \<not> is_int N' \<or> int_of N' \<le> 0 then
        Inl (ValueError ''N must be a positive integer.'')
      else if \<not> is_int M' \<or> int_of M' \<le> 0 then
        Inl (ValueError ''M must be a positive integer.'')
      else if \<not> is_int degree' \<or> int_of degree' < 0 then
        Inl (ValueError ''degree must be a non-negative integer.'')
      else if \<not> is_float lower' then
        Inl (ValueError ''Lower confidence number msut be a float!'')
      else
        (case get_opt_payoff option_payoff' of
           Inl e \<Rightarrow> Inl e
         | Inr p \<Rightarrow>
             Inr \<lparr> S0 = num S0', K = num K', T = num T', r = num r', mu = mu',
                   sigma = num sigma', N = nat (int_of N'), M = nat (int_of M'),
                   option_payoff = p, degree = int_of degree',
                   dt = num T' / of_int (int_of N'), samples = samples',
                   lower = num lower', lamb = (mu' - num r') / num sigma',
                   picard = picard' \<rparr>))"

text \<open>
  The constructor of both spread classes (the same text in \<^verbatim>\<open>BSDEOptionPricingEuropeanSpread\<close>
  and \<^verbatim>\<open>BSDEOptionPricingAmericanSpread\<close>): the base constructor with the default
  \<^verbatim>\<open>picard = 3\<close>, then \<^verbatim>\<open>K2\<close> and \<^verbatim>\<open>R\<close> with their defaults for \<^verbatim>\<open>None\<close>.
\<close>

definition init_spread ::
  "pyval \<Rightarrow> pyval \<Rightarrow> pyval \<Rightarrow> pyval \<Rightarrow> pyval \<Rightarrow> pyval \<Rightarrow> pyval \<Rightarrow> pyval \<Rightarrow> int \<Rightarrow> pyval \<Rightarrow> pyval
     \<Rightarrow> real \<Rightarrow> real option \<Rightarrow> real option \<Rightarrow> error + spread_config" where
  "init_spread S0' K' r' sigma' T' N' M' lower' samples' option_payoff' degree' mu' K2' R' =
     (case init S0' K' r' sigma' T' N' M' lower' samples' option_payoff' degree' mu' 3 of
        Inl e \<Rightarrow> Inl e
      | Inr c \<Rightarrow>
          Inr (config.extend c
                 \<lparr> K2 = (case K2' of None \<Rightarrow> 105 | Some k \<Rightarrow> k),
                   R = (case R' of None \<Rightarrow> 6 / 100 | Some x \<Rightarrow> x) \<rparr>))"

section \<open>Payoff functions\<close>

text \<open>
  \<^verbatim>\<open>_payoff_func\<close> of the plain classes, applied to a vector of prices. The last branch
  formats its message from \<^verbatim>\<open>self.option_type\<close>, an attribute no class defines, so
  reaching it raises \<^verbatim>\<open>AttributeError\<close>.
\<close>

definition payoff_func :: "'a config_scheme \<Rightarrow> real list \<Rightarrow> error + real list" where
  "payoff_func c S =
     (if option_payoff c = ''call'' then Inr (map (\<lambda>s. max (s - K c) 0) S)
      else if option_payoff c = ''put'' then Inr (map (\<lambda>s. max (K c - s) 0) S)
      else Inl (AttributeError ''option_type''))"

text \<open>\<^verbatim>\<open>BSDEOptionPricingEuropeanSpread._payoff_func\<close>.\<close>

definition payoff_func_european_spread ::
  "'a spread_config_scheme \<Rightarrow> real list \<Rightarrow> error + real list" where
  "payoff_func_european_spread c S =
     (if option_payoff c = ''call'' then
        Inr (map (\<lambda>s. max (s - K c) 0 - 2 * max (s - K2 c) 0) S)
      else Inl (AttributeError ''option_type''))"

text \<open>\<^verbatim>\<open>BSDEOptionPricingAmericanSpread._payoff_func\<close>.\<close>

definition payoff_func_american_spread ::
  "'a spread_config_scheme \<Rightarrow> real list \<Rightarrow> error + real list" where
  "payoff_func_american_spread c S =
     (if option_payoff c = ''call'' then
        Inr (map (\<lambda>s. max (s - K c) 0 - max (s - K2 c) 0) S)
      else Inl (AttributeError ''option_type''))"

section \<open>Vectors and matrices\<close>

text \<open>
  A matrix is the list of its rows. The shapes that meet in the solver always agree (NumPy
  would raise otherwise), so the binary operations are written with \<open>zip\<close>.
\<close>

definition dot :: "real list \<Rightarrow> real list \<Rightarrow> real" where
  "dot u v = sum_list (map2 (*) u v)"

text \<open>\<^verbatim>\<open>A @ v\<close> for a matrix and a vector.\<close>

definition matvec :: "real list list \<Rightarrow> real list \<Rightarrow> real list" where
  "matvec A v = map (\<lambda>row. dot row v) A"

text \<open>\<^verbatim>\<open>A[:, j]\<close> and \<^verbatim>\<open>A[:, -1]\<close>.\<close>

definition col :: "real list list \<Rightarrow> nat \<Rightarrow> real list" where
  "col A j = map (\<lambda>row. row ! j) A"

definition last_col :: "real list list \<Rightarrow> real list" where
  "last_col A = map last A"

text \<open>\<^verbatim>\<open>A[:, j] = v\<close> and \<^verbatim>\<open>A[:, -1] = v\<close>.\<close>

definition set_col :: "real list list \<Rightarrow> nat \<Rightarrow> real list \<Rightarrow> real list list" where
  "set_col A j v = map2 (\<lambda>row x. row[j := x]) A v"

definition set_last_col :: "real list list \<Rightarrow> real list \<Rightarrow> real list list" where
  "set_last_col A v = map2 (\<lambda>row x. row[length row - 1 := x]) A v"

text \<open>\<^verbatim>\<open>A.T\<close>; the matrices transposed in the solver have at least one row.\<close>

definition np_T :: "real list list \<Rightarrow> real list list" where
  "np_T A = (case A of [] \<Rightarrow> [] | row # _ \<Rightarrow> map (col A) [0..<length row])"

text \<open>\<^verbatim>\<open>A @ B\<close> for two matrices.\<close>

definition matmul :: "real list list \<Rightarrow> real list list \<Rightarrow> real list list" where
  "matmul A B = map (\<lambda>row. map (dot row) (np_T B)) A"

definition zeros :: "nat \<Rightarrow> nat \<Rightarrow> real list list" where
  "zeros m n = replicate m (replicate n 0)"

text \<open>\<^verbatim>\<open>np.mean\<close> of a vector with at least one entry.\<close>

definition mean :: "real list \<Rightarrow> real" where
  "mean v = sum_list v / real (length v)"

text \<open>\<^verbatim>\<open>np.cumsum\<close> along a row.\<close>

fun cumsum_from :: "real \<Rightarrow> real list \<Rightarrow> real list" where
  "cumsum_from acc [] = []"
| "cumsum_from acc (x # xs) = (acc + x) # cumsum_from (acc + x) xs"

definition cumsum :: "real list \<Rightarrow> real list" where
  "cumsum xs = cumsum_from 0 xs"

text \<open>
  \<^verbatim>\<open>np.min(v, 0)\<close>: the second positional argument of \<^verbatim>\<open>np.min\<close> is the axis, so on a
  vector this is the minimum over all its entries, a scalar. NumPy raises on an empty vector.
\<close>

definition np_min_axis0 :: "real list \<Rightarrow> error + real" where
  "np_min_axis0 v =
     (case v of
        [] \<Rightarrow> Inl (ValueError ''zero-size array to reduction operation minimum'')
      | x # xs \<Rightarrow> Inr (fold min xs x))"

section \<open>Basis expansion and path simulation\<close>

text \<open>
  The Laguerre polynomial \<open>L\<^sub>k\<close>, which \<^verbatim>\<open>Laguerre.basis(k)\<close> evaluates, by its three-term
  recurrence.
\<close>

fun laguerre :: "nat \<Rightarrow> real \<Rightarrow> real" where
  "laguerre 0 x = 1"
| "laguerre (Suc 0) x = 1 - x"
| "laguerre (Suc (Suc k)) x =
     ((2 * real k + 3 - x) * laguerre (Suc k) x - (real k + 1) * laguerre k x) / (real k + 2)"

text \<open>\<^verbatim>\<open>_generate_regression\<close>: row \<open>m\<close> holds \<open>L\<^sub>0 .. L\<^sub>d\<close> at the price of path \<open>m\<close>.\<close>

definition generate_regression :: "'a config_scheme \<Rightarrow> real list \<Rightarrow> error + real list list" where
  "generate_regression c S =
     (if degree c > 20 \<or> degree c < 1 then
        Inl (ValueError ''Invalid degree on Polynomial basis'')
      else Inr (map (\<lambda>s. map (\<lambda>k. laguerre k s) [0..<nat (degree c) + 1]) S))"

text \<open>
  The random source. \<^verbatim>\<open>np.random.normal(0, sqrt(dt), (M, N + 1))\<close> yields an \<open>M \<times> (N+1)\<close>
  matrix; its entries are supplied by \<open>draw\<close> (path, step). The distribution is not modelled.
\<close>

definition normal_draws :: "'a config_scheme \<Rightarrow> (nat \<Rightarrow> nat \<Rightarrow> real) \<Rightarrow> real list list" where
  "normal_draws c draw = map (\<lambda>m. map (\<lambda>n. draw m n) [0..<N c + 1]) [0..<M c]"

text \<open>\<^verbatim>\<open>_generate_stock_paths\<close>, with the drawn matrix \<open>dW\<close> passed in.\<close>

definition generate_stock_paths ::
  "'a config_scheme \<Rightarrow> real list list \<Rightarrow> real list list \<times> real list list" where
  "generate_stock_paths c dW =
     (let dt' = T c / real (N c);
          log_S = map (\<lambda>row. cumsum (map (\<lambda>w. (mu c - 0.5 * (sigma c)\<^sup>2) * dt' + sigma c * w) row)) dW;
          S = map (\<lambda>row. map (\<lambda>x. S0 c * exp x) (0 # row)) log_S
      in (S, dW))"

section \<open>The backward-induction solvers\<close>

text \<open>
  \<^verbatim>\<open>np.linalg.lstsq(A, b, rcond=None)[0]\<close> is a library routine; the solvers take it as the
  parameter \<open>lstsq\<close>. The random source \<open>rng\<close> gives the draws of batch \<open>k\<close>.
\<close>

type_synonym lstsq = "real list list \<Rightarrow> real list \<Rightarrow> real list"

text \<open>What a solver returns next to \<^verbatim>\<open>Y0_samples\<close>, and what \<^verbatim>\<open>_confidence_interval\<close> accepts.\<close>

datatype sample = Arr "real list" | Num real

text \<open>The loop over the batches: the first exception ends it.\<close>

fun for_batches :: "(nat \<Rightarrow> error + 'b) \<Rightarrow> nat list \<Rightarrow> error + 'b list" where
  "for_batches f [] = Inr []"
| "for_batches f (k # ks) =
     (case f k of
        Inl e \<Rightarrow> Inl e
      | Inr y \<Rightarrow> (case for_batches f ks of Inl e \<Rightarrow> Inl e | Inr ys \<Rightarrow> Inr (y # ys)))"

subsection \<open>Plain European\<close>

text \<open>
  The loop \<^verbatim>\<open>for i in range(self.N, 0, -1)\<close> of \<^verbatim>\<open>BSDEOptionPricingEuropean._bsde_solver\<close>;
  the counter \<open>Suc j\<close> is the source's \<open>i\<close>.
\<close>

fun backward_european ::
  "'a config_scheme \<Rightarrow> lstsq \<Rightarrow> real list list \<Rightarrow> nat \<Rightarrow> real list list \<Rightarrow> error + real list list" where
  "backward_european c lstsq S 0 Y = Inr Y"
| "backward_european c lstsq S (Suc j) Y =
     (case generate_regression c (col S (Suc j)) of
        Inl e \<Rightarrow> Inl e
      | Inr X \<Rightarrow>
          (let A = matmul (np_T X) X;
               alpha = lstsq A (matvec (np_T X) (col Y (Suc j)));
               continuation_value = matvec X alpha
           in backward_european c lstsq S j
                (set_col Y j (map (\<lambda>v. v * exp (- r c * dt c)) continuation_value))))"

text \<open>The body of the batch loop up to the end of the backward sweep: the final \<open>Y\<close>.\<close>

definition batch_european ::
  "'a config_scheme \<Rightarrow> lstsq \<Rightarrow> real list list \<Rightarrow> error + real list list" where
  "batch_european c lstsq dW0 =
     (let (S, dW) = generate_stock_paths c dW0;
          Y = zeros (M c) (N c + 1)
      in case payoff_func c (last_col S) of
           Inl e \<Rightarrow> Inl e
         | Inr p \<Rightarrow> backward_european c lstsq S (N c) (set_last_col Y p))"

definition bsde_solver_european ::
  "'a config_scheme \<Rightarrow> lstsq \<Rightarrow> (nat \<Rightarrow> nat \<Rightarrow> nat \<Rightarrow> real) \<Rightarrow> error + real list \<times> sample" where
  "bsde_solver_european c lstsq rng =
     (if samples c < 0 then Inl (ValueError ''negative dimensions are not allowed'')
      else
        (case for_batches
                (\<lambda>k. case batch_european c lstsq (normal_draws c (rng k)) of
                       Inl e \<Rightarrow> Inl e
                     | Inr Y \<Rightarrow> Inr (mean (col Y 0)))
                [0..<nat (samples c)] of
           Inl e \<Rightarrow> Inl e
         | Inr Y0_samples \<Rightarrow> Inr (Y0_samples, Num 0)))"

subsection \<open>Plain American\<close>

fun backward_american ::
  "'a config_scheme \<Rightarrow> lstsq \<Rightarrow> real list list \<Rightarrow> nat \<Rightarrow> real list list \<Rightarrow> error + real list list" where
  "backward_american c lstsq S 0 Y = Inr Y"
| "backward_american c lstsq S (Suc j) Y =
     (case generate_regression c (col S (Suc j)) of
        Inl e \<Rightarrow> Inl e
      | Inr X \<Rightarrow>
          (let A = matmul (np_T X) X;
               alpha = lstsq A (matvec (np_T X) (col Y (Suc j)));
               continuation_value = matvec X alpha
           in case payoff_func c (col S (Suc j)) of
                Inl e \<Rightarrow> Inl e
              | Inr exercise_value \<Rightarrow>
                  backward_american c lstsq S j
                    (set_col Y j
                       (map2 max (map (\<lambda>v. v * exp (- r c * dt c)) continuation_value)
                          exercise_value))))"

definition batch_american ::
  "'a config_scheme \<Rightarrow> lstsq \<Rightarrow> real list list \<Rightarrow> error + real list list" where
  "batch_american c lstsq dW0 =
     (let (S, dW) = generate_stock_paths c dW0;
          Y = zeros (M c) (N c + 1)
      in case payoff_func c (last_col S) of
           Inl e \<Rightarrow> Inl e
         | Inr p \<Rightarrow> backward_american c lstsq S (N c) (set_last_col Y p))"

definition bsde_solver_american ::
  "'a config_scheme \<Rightarrow> lstsq \<Rightarrow> (nat \<Rightarrow> nat \<Rightarrow> nat \<Rightarrow> real) \<Rightarrow> error + real list \<times> sample" where
  "bsde_solver_american c lstsq rng =
     (if samples c < 0 then Inl (ValueError ''negative dimensions are not allowed'')
      else
        (case for_batches
                (\<lambda>k. case batch_american c lstsq (normal_draws c (rng k)) of
                       Inl e \<Rightarrow> Inl e
                     | Inr Y \<Rightarrow> Inr (mean (col Y 0)))
                [0..<nat (samples c)] of
           Inl e \<Rightarrow> Inl e
         | Inr Y0_samples \<Rightarrow> Inr (Y0_samples, Num 0)))"

subsection \<open>The spread variants\<close>

text \<open>
  The right-hand side of the Picard assignment,
  \<^verbatim>\<open>E + (-r*Y[:, i] + lamb*Z[:, i] - (R - r)*np.min(Y[:, i] - Z[:, i]/sigma, 0))*dt\<close>,
  from the columns \<open>Yi = Y[:, i]\<close> and \<open>Zi = Z[:, i]\<close>. The scalar that \<^verbatim>\<open>np.min\<close> returns is
  broadcast over the paths.
\<close>

definition picard_rhs ::
  "'a spread_config_scheme \<Rightarrow> real list \<Rightarrow> real list \<Rightarrow> real list \<Rightarrow> error + real list" where
  "picard_rhs c E Yi Zi =
     (case np_min_axis0 (map2 (\<lambda>y z. y - z / sigma c) Yi Zi) of
        Inl e \<Rightarrow> Inl e
      | Inr m \<Rightarrow>
          Inr (map2 (\<lambda>e (y, z). e + (- r c * y + lamb c * z - (R c - r c) * m) * dt c)
                 E (zip Yi Zi)))"

text \<open>\<^verbatim>\<open>for _ in range(self.picard)\<close>: every pass assigns \<^verbatim>\<open>Y[:, i-1]\<close> afresh.\<close>

fun picard_loop ::
  "'a spread_config_scheme \<Rightarrow> real list \<Rightarrow> real list list \<Rightarrow> nat \<Rightarrow> nat \<Rightarrow> real list list
     \<Rightarrow> error + real list list" where
  "picard_loop c E Z i 0 Y = Inr Y"
| "picard_loop c E Z i (Suc n) Y =
     (case picard_rhs c E (col Y i) (col Z i) of
        Inl e \<Rightarrow> Inl e
      | Inr v \<Rightarrow> picard_loop c E Z i n (set_col Y (i - 1) v))"

fun backward_european_spread ::
  "'a spread_config_scheme \<Rightarrow> lstsq \<Rightarrow> real list list \<Rightarrow> real list list \<Rightarrow> nat
     \<Rightarrow> real list list \<times> real list list \<Rightarrow> error + real list list \<times> real list list" where
  "backward_european_spread c lstsq S dW 0 (Y, Z) = Inr (Y, Z)"
| "backward_european_spread c lstsq S dW (Suc j) (Y, Z) =
     (case generate_regression c (col S (Suc j)) of
        Inl e \<Rightarrow> Inl e
      | Inr X \<Rightarrow>
          (let A = matmul (np_T X) X;
               alpha_y = lstsq A (matvec (np_T X) (col Y (Suc j)));
               alpha_z = lstsq A (matvec (np_T X) (map2 (*) (col Y (Suc j)) (col dW (Suc j))));
               E = matvec X alpha_y;
               Z' = set_col Z (Suc j) (matvec X alpha_z)
           in case picard_loop c E Z' (Suc j) (nat (picard c)) Y of
                Inl e \<Rightarrow> Inl e
              | Inr Y' \<Rightarrow> backward_european_spread c lstsq S dW j (Y', Z')))"

definition batch_european_spread ::
  "'a spread_config_scheme \<Rightarrow> lstsq \<Rightarrow> real list list
     \<Rightarrow> error + real list list \<times> real list list" where
  "batch_european_spread c lstsq dW0 =
     (let (S, dW) = generate_stock_paths c dW0;
          Y = zeros (M c) (N c + 1);
          Z = zeros (M c) (N c + 1)
      in case payoff_func_european_spread c (last_col S) of
           Inl e \<Rightarrow> Inl e
         | Inr p \<Rightarrow> backward_european_spread c lstsq S dW (N c) (set_last_col Y p, Z))"

definition bsde_solver_european_spread ::
  "'a spread_config_scheme \<Rightarrow> lstsq \<Rightarrow> (nat \<Rightarrow> nat \<Rightarrow> nat \<Rightarrow> real) \<Rightarrow> error + real list \<times> sample" where
  "bsde_solver_european_spread c lstsq rng =
     (if samples c < 0 then Inl (ValueError ''negative dimensions are not allowed'')
      else
        (case for_batches
                (\<lambda>k. case batch_european_spread c lstsq (normal_draws c (rng k)) of
                       Inl e \<Rightarrow> Inl e
                     | Inr (Y, Z) \<Rightarrow> Inr (mean (col Y 0)))
                [0..<nat (samples c)] of
           Inl e \<Rightarrow> Inl e
         | Inr Y0_samples \<Rightarrow> Inr (Y0_samples, Num 0)))"

fun backward_american_spread ::
  "'a spread_config_scheme \<Rightarrow> lstsq \<Rightarrow> real list list \<Rightarrow> real list list \<Rightarrow> nat
     \<Rightarrow> real list list \<times> real list list \<Rightarrow> error + real list list \<times> real list list" where
  "backward_american_spread c lstsq S dW 0 (Y, Z) = Inr (Y, Z)"
| "backward_american_spread c lstsq S dW (Suc j) (Y, Z) =
     (case generate_regression c (col S (Suc j)) of
        Inl e \<Rightarrow> Inl e
      | Inr X \<Rightarrow>
          (let A = matmul (np_T X) X;
               alpha_y = lstsq A (matvec (np_T X) (col Y (Suc j)));
               alpha_z = lstsq A (matvec (np_T X) (map2 (*) (col Y (Suc j)) (col dW (Suc j))));
               E = matvec X alpha_y;
               Z' = set_col Z (Suc j) (matvec X alpha_z)
           in case payoff_func_american_spread c (col S (Suc j)) of
                Inl e \<Rightarrow> Inl e
              | Inr exercise_value \<Rightarrow>
                  (case picard_loop c E Z' (Suc j) (nat (picard c)) Y of
                     Inl e \<Rightarrow> Inl e
                   | Inr Y' \<Rightarrow>
                       backward_american_spread c lstsq S dW j
                         (set_col Y' j (map2 max exercise_value (col Y' j)), Z'))))"

definition batch_american_spread ::
  "'a spread_config_scheme \<Rightarrow> lstsq \<Rightarrow> real list list
     \<Rightarrow> error + real list list \<times> real list list" where
  "batch_american_spread c lstsq dW0 =
     (let (S, dW) = generate_stock_paths c dW0;
          Y = zeros (M c) (N c + 1);
          Z = zeros (M c) (N c + 1)
      in case payoff_func_american_spread c (last_col S) of
           Inl e \<Rightarrow> Inl e
         | Inr p \<Rightarrow> backward_american_spread c lstsq S dW (N c) (set_last_col Y p, Z))"

text \<open>
  \<^verbatim>\<open>BSDEOptionPricingAmericanSpread._bsde_solver\<close> fills both \<^verbatim>\<open>Y0_samples\<close> and
  \<^verbatim>\<open>Z0_samples\<close>; its last line is \<^verbatim>\<open>return Y0_samples, 0\<close>.
\<close>

definition bsde_solver_american_spread ::
  "'a spread_config_scheme \<Rightarrow> lstsq \<Rightarrow> (nat \<Rightarrow> nat \<Rightarrow> nat \<Rightarrow> real) \<Rightarrow> error + real list \<times> sample" where
  "bsde_solver_american_spread c lstsq rng =
     (if samples c < 0 then Inl (ValueError ''negative dimensions are not allowed'')
      else
        (case for_batches
                (\<lambda>k. case batch_american_spread c lstsq (normal_draws c (rng k)) of
                       Inl e \<Rightarrow> Inl e
                     | Inr (Y, Z) \<Rightarrow> Inr (mean (col Y 0), mean (col Z 1)))
                [0..<nat (samples c)] of
           Inl e \<Rightarrow> Inl e
         | Inr both \<Rightarrow>
             (let Y0_samples = map fst both;
                  Z0_samples = map snd both
              in Inr (Y0_samples, Num 0))))"

section \<open>The confidence estimator and the entry point\<close>

text \<open>
  \<^verbatim>\<open>np.mean\<close> and \<^verbatim>\<open>np.std\<close> (the population standard deviation). On an empty array NumPy
  yields NaN, which is no real number: \<open>None\<close>.
\<close>

definition np_mean :: "sample \<Rightarrow> real option" where
  "np_mean s =
     (case s of Num x \<Rightarrow> Some x | Arr xs \<Rightarrow> if xs = [] then None else Some (mean xs))"

definition np_std :: "sample \<Rightarrow> real option" where
  "np_std s =
     (case s of
        Num x \<Rightarrow> Some 0
      | Arr xs \<Rightarrow>
          if xs = [] then None else Some (sqrt (mean (map (\<lambda>x. \<bar>x - mean xs\<bar>\<^sup>2) xs))))"

text \<open>\<^verbatim>\<open>round(x, ndigits)\<close>: to the nearest multiple of \<open>10\<^sup>-\<^sup>n\<close>, ties to the even one.\<close>

definition round_half_even :: "real \<Rightarrow> int" where
  "round_half_even x =
     (let f = \<lfloor>x\<rfloor>; d = x - of_int f
      in if d < 1 / 2 then f else if d > 1 / 2 then f + 1 else if even f then f else f + 1)"

definition py_round :: "real \<Rightarrow> nat \<Rightarrow> real" where
  "py_round x ndigits = of_int (round_half_even (x * 10 ^ ndigits)) / 10 ^ ndigits"

text \<open>
  \<^verbatim>\<open>_confidence_interval\<close>. The quantile function \<^verbatim>\<open>scipy.stats.norm.ppf\<close> is the parameter
  \<open>norm_ppf\<close>.
\<close>

definition confidence_interval ::
  "'a config_scheme \<Rightarrow> (real \<Rightarrow> real) \<Rightarrow> sample \<Rightarrow> (real \<times> real \<times> real list) option" where
  "confidence_interval c norm_ppf sample =
     (case np_mean sample of
        None \<Rightarrow> None
      | Some mean_sample \<Rightarrow>
          (case np_std sample of
             None \<Rightarrow> None
           | Some std_sample \<Rightarrow>
               (let upper = mean_sample
                      + norm_ppf (1 - lower c / 2) * std_sample / sqrt (real (M c));
                    lower' = mean_sample
                      - norm_ppf (1 - lower c / 2) * std_sample / sqrt (real (M c));
                    CI = [py_round lower' 4, py_round upper 4]
                in Some (mean_sample, std_sample, CI))))"

text \<open>
  \<^verbatim>\<open>run\<close>, from the result of the class's solver: the statistics it prints for
  \<^verbatim>\<open>Y0_array\<close> and for \<^verbatim>\<open>Z0_array\<close>.
\<close>

definition run ::
  "'a config_scheme \<Rightarrow> (real \<Rightarrow> real) \<Rightarrow> error + real list \<times> sample
     \<Rightarrow> error + (real \<times> real \<times> real list) option \<times> (real \<times> real \<times> real list) option" where
  "run c norm_ppf solved =
     (case solved of
        Inl e \<Rightarrow> Inl e
      | Inr (Y0_array, Z0_array) \<Rightarrow>
          Inr (confidence_interval c norm_ppf (Arr Y0_array),
               confidence_interval c norm_ppf Z0_array))"

section \<open>Notions used to state the properties\<close>

text \<open>The constraints that the data model puts on a configuration.\<close>

definition valid_config :: "'a config_scheme \<Rightarrow> bool" where
  "valid_config c \<longleftrightarrow>
     0 < S0 c \<and> 0 < K c \<and> 0 < sigma c \<and> 0 < T c \<and> 0 < N c \<and> 0 < M c
     \<and> 1 \<le> degree c \<and> degree c \<le> 20
     \<and> (option_payoff c = ''call'' \<or> option_payoff c = ''put'')
     \<and> 0 < lower c \<and> lower c < 1 \<and> 0 \<le> samples c
     \<and> dt c = T c / real (N c) \<and> lamb c = (mu c - r c) / sigma c"

text \<open>The price matrix \<open>S\<close> of the batch whose draws are \<open>draw\<close>.\<close>

definition simulated_prices :: "'a config_scheme \<Rightarrow> (nat \<Rightarrow> nat \<Rightarrow> real) \<Rightarrow> real list list" where
  "simulated_prices c draw = fst (generate_stock_paths c (normal_draws c draw))"

text \<open>
  The least-squares routine solves the normal equations of the design matrix \<open>X\<close> exactly,
  for every right-hand side, with one coefficient per column of \<open>X\<close>. A routine that cuts
  small singular values off has this property only where nothing is cut.
\<close>

definition solves_normal_equations :: "lstsq \<Rightarrow> real list list \<Rightarrow> bool" where
  "solves_normal_equations lstsq X \<longleftrightarrow>
     (\<forall>y. length y = length X \<longrightarrow>
        length (lstsq (matmul (np_T X) X) (matvec (np_T X) y)) = length (np_T X)
        \<and> matvec (matmul (np_T X) X) (lstsq (matmul (np_T X) X) (matvec (np_T X) y))
            = matvec (np_T X) y)"

text \<open>
  The relation that the pass \<open>i\<close> of the plain European loop leaves between the columns
  \<open>i\<close> and \<open>i - 1\<close> of \<open>Y\<close>. The basis matrix \<open>X\<close> is written out with the Laguerre
  polynomials in closed form, \<open>L\<^sub>k(s) = \<Sum>j\<le>k. (k choose j) (- s)\<^sup>j / j!\<close>, and the system
  \<open>A = X\<^sup>T X\<close>, \<open>b = X\<^sup>T Y[:, i]\<close> handed to the least-squares routine entry by entry.
\<close>

definition european_step ::
  "'a config_scheme \<Rightarrow> lstsq \<Rightarrow> real list list \<Rightarrow> real list list \<Rightarrow> nat \<Rightarrow> bool" where
  "european_step c lstsq S Y i \<longleftrightarrow>
     (\<exists>X A b alpha.
        generate_regression c (col S i) = Inr X
        \<and> X = map (\<lambda>s. map (\<lambda>k. \<Sum>j\<le>k. real (k choose j) / fact j * (- s) ^ j)
                         [0..<nat (degree c) + 1]) (col S i)
        \<and> A = matmul (np_T X) X
        \<and> A = map (\<lambda>p. map (\<lambda>q. \<Sum>m<length X. X ! m ! p * X ! m ! q) [0..<nat (degree c) + 1])
                 [0..<nat (degree c) + 1]
        \<and> b = matvec (np_T X) (col Y i)
        \<and> b = map (\<lambda>p. \<Sum>m<length X. X ! m ! p * col Y i ! m) [0..<nat (degree c) + 1]
        \<and> alpha = lstsq A b
        \<and> col Y (i - 1) = map (\<lambda>v. v * exp (- r c * dt c)) (matvec X alpha))"

text \<open>
  The Picard right-hand side as the specification words it, with the minimum against zero
  taken path by path. It is compared with \<open>picard_rhs\<close>, the one of the source.
\<close>

definition picard_rhs_pointwise ::
  "'a spread_config_scheme \<Rightarrow> real list \<Rightarrow> real list \<Rightarrow> real list \<Rightarrow> real list" where
  "picard_rhs_pointwise c E Yi Zi =
     map2 (\<lambda>e (y, z). e + (- r c * y + lamb c * z - (R c - r c) * min (y - z / sigma c) 0) * dt c)
       E (zip Yi Zi)"

subsection \<open>Example inputs\<close>

text \<open>
  The minimum-norm least-squares solution of \<open>A \<alpha> = b\<close> for a diagonal matrix \<open>A\<close>. In the
  examples every regression price is 1, where \<open>L\<^sub>1\<close> vanishes, so \<open>X\<^sup>T X\<close> is diagonal.
\<close>

definition lstsq_diagonal :: lstsq where
  "lstsq_diagonal A b =
     map (\<lambda>j. if A ! j ! j = 0 then 0 else b ! j / A ! j ! j) [0..<length b]"

text \<open>Two paths and one time step; only the last increment of the second path is not zero.\<close>

definition example_draw :: "nat \<Rightarrow> nat \<Rightarrow> real" where
  "example_draw m n = (if m = 1 \<and> n = 1 then ln 2 else 0)"

definition example_rng :: "nat \<Rightarrow> nat \<Rightarrow> nat \<Rightarrow> real" where
  "example_rng k = example_draw"

text \<open>Two increments per path, both of them not zero.\<close>

definition example_draw_both :: "nat \<Rightarrow> nat \<Rightarrow> real" where
  "example_draw_both m n = (if n = 0 then ln 2 else ln 3)"

definition example_put :: config where
  "example_put = \<lparr> S0 = 1, K = 3 / 2, T = 1, r = 0, mu = 1 / 2, sigma = 1, N = 1, M = 2,
     option_payoff = ''put'', degree = 1, dt = 1, samples = 1, lower = 1 / 40,
     lamb = 1 / 2, picard = 3 \<rparr>"

definition example_spread :: spread_config where
  "example_spread = \<lparr> S0 = 1, K = 1, T = 1, r = 0, mu = 1 / 2, sigma = 1, N = 1, M = 2,
     option_payoff = ''call'', degree = 1, dt = 1, samples = 1, lower = 1 / 40,
     lamb = 1 / 2, picard = 3, K2 = 3, R = 6 / 100 \<rparr>"

text \<open>A stand-in for the normal quantile function in the examples: the constant 2.\<close>

definition two_sigma :: "real \<Rightarrow> real" where
  "two_sigma p = 2"

text \<open>The instance that the constructor builds for a call with \<^verbatim>\<open>degree = 0\<close>.\<close>

definition degree_zero_config :: config where
  "degree_zero_config = \<lparr> S0 = 100, K = 100, T = 1, r = 5 / 100, mu = 5 / 100,
     sigma = 2 / 10, N = 50, M = 1000, option_payoff = ''call'', degree = 0, dt = 1 / 50,
     samples = 100, lower = 25 / 1000, lamb = 0, picard = 3 \<rparr>"

text \<open>The spread instance that the constructor builds for a put, with \<open>n\<close> batches.\<close>

definition put_spread_config :: "int \<Rightarrow> spread_config" where
  "put_spread_config n = \<lparr> S0 = 100, K = 100, T = 1, r = 5 / 100, mu = 5 / 100,
     sigma = 2 / 10, N = 50, M = 1000, option_payoff = ''put'', degree = 3, dt = 1 / 50,
     samples = n, lower = 25 / 1000, lamb = 0, picard = 3, K2 = 105, R = 6 / 100 \<rparr>"



subsection \<open>The library routine on two columns\<close>

text \<open>
  \<^verbatim>\<open>np.linalg.lstsq(A, b, rcond=None)\<close> for a symmetric positive semidefinite \<open>2 \<times> 2\<close> matrix
  \<open>A\<close>, as NumPy documents it, in exact arithmetic: the minimum-norm least-squares solution
  from the singular value decomposition, where the singular values \<open>s \<le> rcond * s\<^sub>m\<^sub>a\<^sub>x\<close> are
  treated as zero and \<open>rcond\<close> is the machine precision \<open>2\<^sup>-\<^sup>5\<^sup>2\<close> times the larger dimension of
  \<open>A\<close>. The singular values of such a matrix are its eigenvalues \<open>s1 \<ge> s2 \<ge> 0\<close>, with the
  eigenvectors \<open>v1\<close>, \<open>v2\<close>; each singular value that is kept contributes
  \<open>(v \<bullet> b) / (s (v \<bullet> v)) v\<close>. This is the matrix \<open>X\<^sup>T X\<close> of the solvers for \<^verbatim>\<open>degree = 1\<close>.
\<close>

definition float_eps :: real where
  "float_eps = 1 / 2 ^ 52"

definition lstsq_sym2 :: lstsq where
  "lstsq_sym2 A b =
     (let a00 = A ! 0 ! 0; a01 = A ! 0 ! 1; a11 = A ! 1 ! 1;
          d = sqrt ((a00 - a11)\<^sup>2 + 4 * a01\<^sup>2);
          s1 = (a00 + a11 + d) / 2;
          s2 = (a00 + a11 - d) / 2;
          v1 = (if a01 = 0 then (if a11 \<le> a00 then [1, 0] else [0, 1]) else [a01, s1 - a00]);
          v2 = (if a01 = 0 then (if a11 \<le> a00 then [0, 1] else [1, 0]) else [a01, s2 - a00]);
          cutoff = float_eps * 2 * s1;
          part = (\<lambda>s v. if s \<le> cutoff then [0, 0]
                        else map (\<lambda>x. dot v b / (s * dot v v) * x) v)
      in map2 (+) (part s1 v1) (part s2 v2))"

text \<open>
  Three paths and three time steps, as a table of prices (one row per path, the columns
  \<open>0 .. N + 1\<close>) and the draws that produce them. At the first step one price is
  \<open>10\<^sup>9 + 1\<close> and two are \<open>1 - 10\<^sup>-\<^sup>9\<close>, so \<open>X\<^sup>T X\<close> has the singular values \<open>10\<^sup>1\<^sup>8 + 1\<close> and
  \<open>2 + 2 / 10\<^sup>1\<^sup>8\<close>, the smaller one below the cut-off.
\<close>

definition truncation_prices :: "real list list" where
  "truncation_prices =
     [[1, 1000000001, 1 / 2, 1, 1 / 4],
      [1, 999999999 / 1000000000, 1, 15 / 8, 1 / 4],
      [1, 999999999 / 1000000000, 3 / 2, 1 / 8, 1 / 4]]"

definition truncation_draw :: "nat \<Rightarrow> nat \<Rightarrow> real" where
  "truncation_draw m n = ln (truncation_prices ! m ! Suc n / truncation_prices ! m ! n)"

definition truncation_rng :: "nat \<Rightarrow> nat \<Rightarrow> nat \<Rightarrow> real" where
  "truncation_rng k = truncation_draw"

definition truncation_config :: config where
  "truncation_config = \<lparr> S0 = 1, K = 1 / 2, T = 1, r = 0, mu = 1 / 2, sigma = 1, N = 3, M = 3,
     option_payoff = ''put'', degree = 1, dt = 1 / 3, samples = 1, lower = 1 / 40,
     lamb = 1 / 2, picard = 3 \<rparr>"


text \<open>Two paths and one time step with the prices \<open>1 / 2\<close> and \<open>3 / 2\<close> at the step.\<close>

definition regular_prices :: "real list list" where
  "regular_prices = [[1, 1 / 2, 3 / 4], [1, 3 / 2, 1]]"

definition regular_draw :: "nat \<Rightarrow> nat \<Rightarrow> real" where
  "regular_draw m n = ln (regular_prices ! m ! Suc n / regular_prices ! m ! n)"

definition regular_rng :: "nat \<Rightarrow> nat \<Rightarrow> nat \<Rightarrow> real" where
  "regular_rng k = regular_draw"

definition regular_config :: config where
  "regular_config = \<lparr> S0 = 1, K = 1, T = 1, r = 0, mu = 1 / 2, sigma = 1, N = 1, M = 2,
     option_payoff = ''put'', degree = 1, dt = 1, samples = 1, lower = 1 / 40,
     lamb = 1 / 2, picard = 3 \<rparr>"

section \<open>The spread payoffs\<close>

text \<open>
  Claim C6, as amended. For a call spread with strikes \<open>0 < K \<le> K2\<close> and every price vector:
  the payoff of the American spread class lies in \<open>[0, K2 - K]\<close>; the payoff of the European
  spread class (one call bought at \<open>K\<close>, two calls sold at \<open>K2\<close>) is at most \<open>K2 - K\<close> and is
  non-negative exactly for the prices up to \<open>2 * K2 - K\<close>.
\<close>

theorem spread_payoff_bounds:
  assumes "option_payoff c = ''call''" and "0 < K c" and "K c \<le> K2 c"
  shows "\<exists>pa pe. payoff_func_american_spread c S = Inr pa
           \<and> payoff_func_european_spread c S = Inr pe
           \<and> length pa = length S \<and> length pe = length S
           \<and> (\<forall>i<length S. 0 \<le> pa ! i \<and> pa ! i \<le> K2 c - K c
                  \<and> pe ! i \<le> K2 c - K c
                  \<and> (0 \<le> pe ! i \<longleftrightarrow> S ! i \<le> 2 * K2 c - K c))"
  using assms
  by (auto simp: payoff_func_american_spread_def payoff_func_european_spread_def max_def)

theorem spread_payoff_bounds_witness:
  "option_payoff example_spread = ''call'' \<and> 0 < K example_spread
   \<and> K example_spread \<le> K2 example_spread
   \<and> payoff_func_american_spread example_spread [0, 2, 10] = Inr [0, 1, 2]
   \<and> payoff_func_european_spread example_spread [0, 2, 10] = Inr [0, 1, - 5]"
proof -
  have h: "option_payoff example_spread = ''call''" "0 < K example_spread"
    "K example_spread \<le> K2 example_spread"
    by (simp_all add: example_spread_def)
  from spread_payoff_bounds [OF h, of "[0, 2, 10]"] h show ?thesis
    by (simp add: example_spread_def payoff_func_american_spread_def
        payoff_func_european_spread_def)
qed

text \<open>
  The bound from below fails for the European spread class: at the price 10, with the
  strikes 1 and 3, its payoff is \<open>9 - 2 * 7 = - 5\<close>.
\<close>

theorem european_spread_payoff_negative:
  "0 < K example_spread \<and> K example_spread \<le> K2 example_spread \<and> (0::real) \<le> 10
   \<and> payoff_func_european_spread example_spread [10] = Inr [- 5] \<and> \<not> (0::real) \<le> - 5"
  by (simp add: example_spread_def payoff_func_european_spread_def)

section \<open>Where the degree is checked\<close>

lemma str_lower_call: "str_lower ''call'' = ''call''"
  by code_simp

lemma str_lower_put: "str_lower ''put'' = ''put''"
  by code_simp

lemma init_nonneg_degree:
  assumes "0 \<le> n" and "0 \<le> m"
  shows "(\<exists>c. init S0' K' r' sigma' T' N' M' lower' samples' op (PInt n) mu' picard' = Inr c)
     \<longleftrightarrow> (\<exists>c. init S0' K' r' sigma' T' N' M' lower' samples' op (PInt m) mu' picard' = Inr c)"
  using assms by (auto simp: init_def split: if_splits sum.splits)

text \<open>
  Claim C5, as amended. The constructor rejects a degree that is no integer or is negative,
  with a \<^verbatim>\<open>ValueError\<close>, and treats all non-negative degrees alike. An instance that was
  constructed has a non-negative integer degree; its basis expander succeeds exactly when the
  degree lies in \<open>[1, 20]\<close> and raises the degree-range \<^verbatim>\<open>ValueError\<close>, on every call,
  exactly when the degree is 0 or above 20.
\<close>

theorem degree_checks:
  "(\<not> is_int d \<or> int_of d < 0 \<longrightarrow>
      (\<exists>msg. init S0' K' r' sigma' T' N' M' lower' samples' op d mu' picard' = Inl (ValueError msg)))
   \<and> (0 \<le> n \<and> 0 \<le> m \<longrightarrow>
        ((\<exists>c. init S0' K' r' sigma' T' N' M' lower' samples' op (PInt n) mu' picard' = Inr c)
          \<longleftrightarrow> (\<exists>c. init S0' K' r' sigma' T' N' M' lower' samples' op (PInt m) mu' picard' = Inr c)))
   \<and> (init S0' K' r' sigma' T' N' M' lower' samples' op d mu' picard' = Inr c \<longrightarrow>
        is_int d \<and> degree c = int_of d \<and> 0 \<le> degree c
        \<and> ((\<exists>X. generate_regression c S = Inr X) \<longleftrightarrow> 1 \<le> degree c \<and> degree c \<le> 20)
        \<and> (generate_regression c S = Inl (ValueError ''Invalid degree on Polynomial basis'')
             \<longleftrightarrow> degree c = 0 \<or> 20 < degree c))"
proof (intro conjI impI)
  assume "\<not> is_int d \<or> int_of d < 0"
  then show "\<exists>msg. init S0' K' r' sigma' T' N' M' lower' samples' op d mu' picard' = Inl (ValueError msg)"
    by (auto simp: init_def)
next
  assume "0 \<le> n \<and> 0 \<le> m"
  then show "(\<exists>c. init S0' K' r' sigma' T' N' M' lower' samples' op (PInt n) mu' picard' = Inr c)
     \<longleftrightarrow> (\<exists>c. init S0' K' r' sigma' T' N' M' lower' samples' op (PInt m) mu' picard' = Inr c)"
    using init_nonneg_degree by blast
next
  assume a: "init S0' K' r' sigma' T' N' M' lower' samples' op d mu' picard' = Inr c"
  then have d: "is_int d" "degree c = int_of d" "0 \<le> degree c"
    by (auto simp: init_def split: if_splits sum.splits)
  then show "is_int d" "degree c = int_of d" "0 \<le> degree c" by simp_all
  show "(\<exists>X. generate_regression c S = Inr X) \<longleftrightarrow> 1 \<le> degree c \<and> degree c \<le> 20"
    by (auto simp: generate_regression_def)
  show "generate_regression c S = Inl (ValueError ''Invalid degree on Polynomial basis'')
             \<longleftrightarrow> degree c = 0 \<or> 20 < degree c"
    using d by (auto simp: generate_regression_def)
qed

lemma init_degree_zero:
  "init (PInt 100) (PInt 100) (PFloat (5 / 100)) (PFloat (2 / 10)) (PInt 1) (PInt 50)
     (PInt 1000) (PFloat (25 / 1000)) 100 (PStr ''call'') (PInt 0) (5 / 100) 3
   = Inr degree_zero_config"
  by (simp add: init_def get_opt_payoff_def str_lower_call degree_zero_config_def)

theorem degree_checks_witness:
  "init (PInt 100) (PInt 100) (PFloat (5 / 100)) (PFloat (2 / 10)) (PInt 1) (PInt 50)
     (PInt 1000) (PFloat (25 / 1000)) 100 (PStr ''call'') (PInt 0) (5 / 100) 3
   = Inr degree_zero_config
   \<and> (\<exists>msg. init (PInt 100) (PInt 100) (PFloat (5 / 100)) (PFloat (2 / 10)) (PInt 1) (PInt 50)
     (PInt 1000) (PFloat (25 / 1000)) 100 (PStr ''call'') (PInt (- 1)) (5 / 100) 3
       = Inl (ValueError msg))
   \<and> (\<exists>c. init (PInt 100) (PInt 100) (PFloat (5 / 100)) (PFloat (2 / 10)) (PInt 1) (PInt 50)
     (PInt 1000) (PFloat (25 / 1000)) 100 (PStr ''call'') (PInt 21) (5 / 100) 3 = Inr c)
   \<and> degree degree_zero_config = 0
   \<and> generate_regression degree_zero_config [100]
       = Inl (ValueError ''Invalid degree on Polynomial basis'')"
proof -
  note i = init_degree_zero
  have neg: "\<not> is_int (PInt (- 1)) \<or> int_of (PInt (- 1)) < 0" by simp
  have nn: "(0::int) \<le> 0 \<and> (0::int) \<le> 21" by simp
  have ex: "\<exists>c. init (PInt 100) (PInt 100) (PFloat (5 / 100)) (PFloat (2 / 10)) (PInt 1) (PInt 50)
     (PInt 1000) (PFloat (25 / 1000)) 100 (PStr ''call'') (PInt 0) (5 / 100) 3 = Inr c"
    using i by blast
  from degree_checks [of "PInt 0" "PInt 100" "PInt 100" "PFloat (5 / 100)" "PFloat (2 / 10)"
      "PInt 1" "PInt 50" "PInt 1000" "PFloat (25 / 1000)" 100 "PStr ''call''" "5 / 100" 3
      0 21 degree_zero_config "[100]"]
    degree_checks [of "PInt (- 1)" "PInt 100" "PInt 100" "PFloat (5 / 100)" "PFloat (2 / 10)"
      "PInt 1" "PInt 50" "PInt 1000" "PFloat (25 / 1000)" 100 "PStr ''call''" "5 / 100" 3
      0 21 degree_zero_config "[100]"]
    i neg nn ex
  show ?thesis by simp
qed

text \<open>
  Construction with \<^verbatim>\<open>degree = 0\<close> succeeds, and the basis expander of that instance raises
  the degree-range error.
\<close>

theorem degree_zero_accepted:
  "init (PInt 100) (PInt 100) (PFloat (5 / 100)) (PFloat (2 / 10)) (PInt 1) (PInt 50)
     (PInt 1000) (PFloat (25 / 1000)) 100 (PStr ''call'') (PInt 0) (5 / 100) 3
   = Inr degree_zero_config
   \<and> generate_regression degree_zero_config [100]
       = Inl (ValueError ''Invalid degree on Polynomial basis'')"
  by (simp add: init_def get_opt_payoff_def str_lower_call degree_zero_config_def
      generate_regression_def)


section \<open>Spread classes with the payoff kind put\<close>


lemma for_batches_first_error:
  assumes "0 < n" and "f 0 = Inl e"
  shows "for_batches f [0..<n] = Inl e"
  using assms by (simp add: upt_conv_Cons)

lemma batch_european_spread_not_call:
  assumes "option_payoff c \<noteq> ''call''"
  shows "batch_european_spread c lstsq dW = Inl (AttributeError ''option_type'')"
  using assms
  by (simp add: batch_european_spread_def generate_stock_paths_def Let_def
      payoff_func_european_spread_def)

lemma batch_american_spread_not_call:
  assumes "option_payoff c \<noteq> ''call''"
  shows "batch_american_spread c lstsq dW = Inl (AttributeError ''option_type'')"
  using assms
  by (simp add: batch_american_spread_def generate_stock_paths_def Let_def
      payoff_func_american_spread_def)

lemma init_spread_payoff_kind:
  assumes "init_spread S0' K' r' sigma' T' N' M' lower' samples' (PStr s) degree' mu' K2' R' = Inr c"
  shows "get_opt_payoff (PStr s) = Inr (option_payoff c) \<and> samples c = samples'"
  using assms
  by (auto simp: init_spread_def init_def config.defs split: sum.splits if_splits)

lemma init_spread_accepts_alike:
  assumes "get_opt_payoff p = Inr a" and "get_opt_payoff q = Inr b"
  shows "(\<exists>c. init_spread S0' K' r' sigma' T' N' M' lower' samples' p degree' mu' K2' R' = Inr c)
     \<longleftrightarrow> (\<exists>c. init_spread S0' K' r' sigma' T' N' M' lower' samples' q degree' mu' K2' R' = Inr c)"
  using assms by (auto simp: init_spread_def init_def split: sum.splits if_splits)

text \<open>
  Claim C10, as amended. A payoff kind that lower-cases to \<^verbatim>\<open>put\<close> is accepted by the
  payoff normalisation, and a spread constructor accepts it whenever it accepts \<^verbatim>\<open>call\<close>.
  On the instance so built every call of either spread payoff function raises
  \<^verbatim>\<open>AttributeError\<close>, and so does every run of either spread solver that has at least one
  batch. The spread payoff functions return a value only for \<^verbatim>\<open>call\<close>.
\<close>

theorem spread_put_attribute_error:
  assumes "str_lower s = ''put''"
  shows "get_opt_payoff (PStr s) = Inr ''put''
     \<and> ((\<exists>c. init_spread S0' K' r' sigma' T' N' M' lower' samples' (PStr s) degree' mu' K2' R' = Inr c)
          \<longleftrightarrow> (\<exists>c. init_spread S0' K' r' sigma' T' N' M' lower' samples' (PStr ''call'') degree' mu' K2' R' = Inr c))
     \<and> (init_spread S0' K' r' sigma' T' N' M' lower' samples' (PStr s) degree' mu' K2' R' = Inr c \<longrightarrow>
          option_payoff c = ''put''
          \<and> payoff_func_european_spread c S = Inl (AttributeError ''option_type'')
          \<and> payoff_func_american_spread c S = Inl (AttributeError ''option_type'')
          \<and> (0 < samples' \<longrightarrow>
                bsde_solver_european_spread c lstsq rng = Inl (AttributeError ''option_type'')
                \<and> bsde_solver_american_spread c lstsq rng = Inl (AttributeError ''option_type'')))
     \<and> ((\<exists>p. payoff_func_european_spread c' S = Inr p) \<longleftrightarrow> option_payoff c' = ''call'')
     \<and> ((\<exists>p. payoff_func_american_spread c' S = Inr p) \<longleftrightarrow> option_payoff c' = ''call'')"
proof (intro conjI impI)
  show g: "get_opt_payoff (PStr s) = Inr ''put''"
    using assms by (simp add: get_opt_payoff_def)
  have "get_opt_payoff (PStr ''call'') = Inr ''call''"
    by (simp add: get_opt_payoff_def str_lower_call)
  with g show "(\<exists>c. init_spread S0' K' r' sigma' T' N' M' lower' samples' (PStr s) degree' mu' K2' R' = Inr c)
          \<longleftrightarrow> (\<exists>c. init_spread S0' K' r' sigma' T' N' M' lower' samples' (PStr ''call'') degree' mu' K2' R' = Inr c)"
    by (rule init_spread_accepts_alike)
  show "(\<exists>p. payoff_func_european_spread c' S = Inr p) \<longleftrightarrow> option_payoff c' = ''call''"
    by (simp add: payoff_func_european_spread_def)
  show "(\<exists>p. payoff_func_american_spread c' S = Inr p) \<longleftrightarrow> option_payoff c' = ''call''"
    by (simp add: payoff_func_american_spread_def)
next
  assume a: "init_spread S0' K' r' sigma' T' N' M' lower' samples' (PStr s) degree' mu' K2' R' = Inr c"
  have g: "get_opt_payoff (PStr s) = Inr ''put''"
    using assms by (simp add: get_opt_payoff_def)
  with init_spread_payoff_kind [OF a] show put: "option_payoff c = ''put''" by simp
  then have nc: "option_payoff c \<noteq> ''call''" by simp
  show "payoff_func_european_spread c S = Inl (AttributeError ''option_type'')"
    using nc by (simp add: payoff_func_european_spread_def)
  show "payoff_func_american_spread c S = Inl (AttributeError ''option_type'')"
    using nc by (simp add: payoff_func_american_spread_def)
  assume "0 < samples'"
  then have n: "0 < nat (samples c)" "\<not> samples c < 0"
    using init_spread_payoff_kind [OF a] by simp_all
  show "bsde_solver_european_spread c lstsq rng = Inl (AttributeError ''option_type'')"
    using n by (simp add: bsde_solver_european_spread_def
        for_batches_first_error [OF n(1), of _ "AttributeError ''option_type''"]
        batch_european_spread_not_call [OF nc])
  show "bsde_solver_american_spread c lstsq rng = Inl (AttributeError ''option_type'')"
    using n by (simp add: bsde_solver_american_spread_def
        for_batches_first_error [OF n(1), of _ "AttributeError ''option_type''"]
        batch_american_spread_not_call [OF nc])
qed

lemma str_lower_PuT: "str_lower ''PuT'' = ''put''"
  by code_simp

lemma init_spread_put:
  "init_spread (PInt 100) (PInt 100) (PFloat (5 / 100)) (PFloat (2 / 10)) (PInt 1) (PInt 50)
     (PInt 1000) (PFloat (25 / 1000)) n (PStr ''PuT'') (PInt 3) (5 / 100) None None
   = Inr (put_spread_config n)"
  by (simp add: init_spread_def init_def get_opt_payoff_def str_lower_PuT str_lower_put
      put_spread_config_def config.defs)

theorem spread_put_attribute_error_witness:
  "str_lower ''PuT'' = ''put''
   \<and> init_spread (PInt 100) (PInt 100) (PFloat (5 / 100)) (PFloat (2 / 10)) (PInt 1) (PInt 50)
       (PInt 1000) (PFloat (25 / 1000)) 100 (PStr ''PuT'') (PInt 3) (5 / 100) None None
     = Inr (put_spread_config 100)
   \<and> (0::int) < 100
   \<and> payoff_func_european_spread (put_spread_config 100) [120]
       = Inl (AttributeError ''option_type'')
   \<and> bsde_solver_european_spread (put_spread_config 100) lstsq_diagonal example_rng
       = Inl (AttributeError ''option_type'')
   \<and> bsde_solver_american_spread (put_spread_config 100) lstsq_diagonal example_rng
       = Inl (AttributeError ''option_type'')"
proof -
  note l = str_lower_PuT
  note i = init_spread_put [of 100]
  from spread_put_attribute_error [OF l, of "PInt 100" "PInt 100" "PFloat (5 / 100)"
      "PFloat (2 / 10)" "PInt 1" "PInt 50" "PInt 1000" "PFloat (25 / 1000)" 100 "PInt 3"
      "5 / 100" None None "put_spread_config 100" "[120]" lstsq_diagonal example_rng
      "put_spread_config 100"]
    l i
  show ?thesis by simp
qed

text \<open>
  With \<^verbatim>\<open>samples = 0\<close> the batch loop has no pass: the payoff is never evaluated and both
  spread solvers return normally.
\<close>

theorem spread_put_no_batches:
  "init_spread (PInt 100) (PInt 100) (PFloat (5 / 100)) (PFloat (2 / 10)) (PInt 1) (PInt 50)
       (PInt 1000) (PFloat (25 / 1000)) 0 (PStr ''put'') (PInt 3) (5 / 100) None None
     = Inr (put_spread_config 0)
   \<and> bsde_solver_european_spread (put_spread_config 0) lstsq_diagonal example_rng
       = Inr ([], Num 0)
   \<and> bsde_solver_american_spread (put_spread_config 0) lstsq_diagonal example_rng
       = Inr ([], Num 0)"
  by (simp add: init_spread_def init_def get_opt_payoff_def str_lower_put
      put_spread_config_def config.defs bsde_solver_european_spread_def
      bsde_solver_american_spread_def)


section \<open>The confidence estimator\<close>


lemma round_half_even_floor:
  "\<lfloor>x\<rfloor> \<le> round_half_even x \<and> round_half_even x \<le> \<lfloor>x\<rfloor> + 1"
  by (simp add: round_half_even_def Let_def)

lemma round_half_even_mono:
  assumes "x \<le> y"
  shows "round_half_even x \<le> round_half_even y"
proof (cases "\<lfloor>x\<rfloor> < \<lfloor>y\<rfloor>")
  case True
  have "round_half_even x \<le> \<lfloor>x\<rfloor> + 1" using round_half_even_floor by blast
  also have "\<dots> \<le> \<lfloor>y\<rfloor>" using True by simp
  also have "\<dots> \<le> round_half_even y" using round_half_even_floor by blast
  finally show ?thesis .
next
  case False
  with assms have eq: "\<lfloor>x\<rfloor> = \<lfloor>y\<rfloor>" using floor_mono [of x y] by linarith
  have "x - of_int \<lfloor>y\<rfloor> \<le> y - of_int \<lfloor>y\<rfloor>" using assms by simp
  then show ?thesis
    unfolding round_half_even_def Let_def eq by auto
qed

lemma round_half_even_close: "\<bar>of_int (round_half_even x) - x\<bar> \<le> 1 / 2"
proof -
  have "of_int \<lfloor>x\<rfloor> \<le> x" "x < of_int \<lfloor>x\<rfloor> + 1" by linarith+
  then show ?thesis
    unfolding round_half_even_def Let_def by (auto simp: abs_le_iff)
qed

lemma py_round_mono: "x \<le> y \<Longrightarrow> py_round x n \<le> py_round y n"
  unfolding py_round_def
  by (intro divide_right_mono) (auto intro!: round_half_even_mono)

lemma py_round_close: "\<bar>py_round x n - x\<bar> \<le> 1 / (2 * 10 ^ n)"
proof -
  have "py_round x n - x = (of_int (round_half_even (x * 10 ^ n)) - x * 10 ^ n) / 10 ^ n"
    unfolding py_round_def by (simp add: field_simps)
  then have "\<bar>py_round x n - x\<bar> = \<bar>of_int (round_half_even (x * 10 ^ n)) - x * 10 ^ n\<bar> / 10 ^ n"
    by (simp only: abs_divide) simp
  also have "\<dots> \<le> (1 / 2) / 10 ^ n"
    by (intro divide_right_mono round_half_even_close) simp
  finally show ?thesis by simp
qed

lemma mean_squares_nonneg: "0 \<le> mean (map (\<lambda>x. \<bar>x - m\<bar>\<^sup>2) xs)"
  unfolding mean_def by (intro divide_nonneg_nonneg sum_list_nonneg) auto

lemma confidence_interval_Arr:
  assumes "xs \<noteq> []"
  shows "confidence_interval c norm_ppf (Arr xs) =
     Some (mean xs, sqrt (mean (map (\<lambda>x. \<bar>x - mean xs\<bar>\<^sup>2) xs)),
       [py_round (mean xs - norm_ppf (1 - lower c / 2)
            * sqrt (mean (map (\<lambda>x. \<bar>x - mean xs\<bar>\<^sup>2) xs)) / sqrt (real (M c))) 4,
        py_round (mean xs + norm_ppf (1 - lower c / 2)
            * sqrt (mean (map (\<lambda>x. \<bar>x - mean xs\<bar>\<^sup>2) xs)) / sqrt (real (M c))) 4])"
  using assms by (simp add: confidence_interval_def np_mean_def np_std_def Let_def)

text \<open>
  Claim C7. For every batch array with at least one entry the estimator returns the mean
  \<open>m\<close> of the array, its standard deviation \<open>s\<close> (the non-negative root of the mean squared
  deviation) and the interval \<open>[m - z s / \<surd>M, m + z s / \<surd>M]\<close> with
  \<open>z = norm_ppf (1 - lower / 2)\<close>; the half-width is divided by the root of the number of
  paths \<open>M\<close>, whatever the length of the array. Both bounds are rounded to four decimals:
  each is a multiple of \<open>10\<^sup>-\<^sup>4\<close> within \<open>0.00005\<close> of the unrounded bound.
\<close>

theorem confidence_interval_formula:
  assumes "xs \<noteq> []"
  shows "\<exists>m s z. confidence_interval c norm_ppf (Arr xs) =
           Some (m, s, [py_round (m - z * s / sqrt (real (M c))) 4,
                        py_round (m + z * s / sqrt (real (M c))) 4])
         \<and> z = norm_ppf (1 - lower c / 2)
         \<and> m = sum_list xs / real (length xs)
         \<and> 0 \<le> s \<and> s\<^sup>2 = sum_list (map (\<lambda>x. (x - m)\<^sup>2) xs) / real (length xs)
         \<and> (\<forall>y. \<exists>k::int. py_round y 4 = of_int k / 10 ^ 4
                  \<and> \<bar>py_round y 4 - y\<bar> \<le> 1 / (2 * 10 ^ 4))"
proof -
  let ?m = "mean xs"
  let ?v = "mean (map (\<lambda>x. \<bar>x - ?m\<bar>\<^sup>2) xs)"
  have v: "0 \<le> ?v" by (rule mean_squares_nonneg)
  have "(sqrt ?v)\<^sup>2 = sum_list (map (\<lambda>x. (x - ?m)\<^sup>2) xs) / real (length xs)"
    using v by (simp add: mean_def)
  moreover have "\<exists>k::int. py_round y 4 = of_int k / 10 ^ 4 \<and> \<bar>py_round y 4 - y\<bar> \<le> 1 / (2 * 10 ^ 4)"
    for y
    using py_round_close [of y 4] by (auto simp: py_round_def)
  ultimately show ?thesis
    using v confidence_interval_Arr [OF assms, of c norm_ppf]
    by (intro exI [of _ ?m] exI [of _ "sqrt ?v"] exI [of _ "norm_ppf (1 - lower c / 2)"])
      (simp add: mean_def)
qed

theorem confidence_interval_formula_witness:
  "[1, 3] \<noteq> ([] :: real list)
   \<and> confidence_interval (example_put\<lparr>M := 4\<rparr>) two_sigma (Arr [1, 3]) = Some (2, 1, [1, 3])"
proof -
  have h: "[1, 3] \<noteq> ([] :: real list)" by simp
  have r: "py_round 1 4 = 1" "py_round 3 4 = 3"
    by (simp_all add: py_round_def round_half_even_def)
  have "sqrt 4 = 2" using real_sqrt_abs [of 2] by simp
  with confidence_interval_formula [OF h, of "example_put\<lparr>M := 4\<rparr>" two_sigma] h r
  show ?thesis
    by (simp add: confidence_interval_def np_mean_def np_std_def mean_def two_sigma_def Let_def)
qed

text \<open>
  Claim C8, as amended. For every batch array with at least one entry and a quantile
  \<open>z \<ge> 0\<close>, the rounded bounds bracket the mean rounded to four decimals, and therefore
  the mean itself up to \<open>0.00005\<close>.
\<close>

theorem confidence_interval_brackets_rounded_mean:
  assumes "xs \<noteq> []" and "0 \<le> norm_ppf (1 - lower c / 2)"
  shows "\<exists>m s lo hi. confidence_interval c norm_ppf (Arr xs) = Some (m, s, [lo, hi])
           \<and> m = sum_list xs / real (length xs)
           \<and> lo \<le> py_round m 4 \<and> py_round m 4 \<le> hi
           \<and> lo \<le> m + 1 / 20000 \<and> m - 1 / 20000 \<le> hi"
proof -
  let ?m = "mean xs"
  let ?s = "sqrt (mean (map (\<lambda>x. \<bar>x - ?m\<bar>\<^sup>2) xs))"
  let ?h = "norm_ppf (1 - lower c / 2) * ?s / sqrt (real (M c))"
  have h: "0 \<le> ?h"
    using assms(2) mean_squares_nonneg [of ?m xs] by simp
  have lo: "py_round (?m - ?h) 4 \<le> py_round ?m 4" using h by (intro py_round_mono) simp
  have hi: "py_round ?m 4 \<le> py_round (?m + ?h) 4" using h by (intro py_round_mono) simp
  have c: "\<bar>py_round ?m 4 - ?m\<bar> \<le> 1 / 20000" using py_round_close [of ?m 4] by simp
  have "py_round (?m - ?h) 4 \<le> ?m + 1 / 20000" "?m - 1 / 20000 \<le> py_round (?m + ?h) 4"
    using lo hi c by linarith+
  with lo hi show ?thesis
    using confidence_interval_Arr [OF assms(1), of c norm_ppf] by (simp add: mean_def)
qed

theorem confidence_interval_brackets_rounded_mean_witness:
  "[1, 3] \<noteq> ([] :: real list) \<and> 0 \<le> two_sigma (1 - lower (example_put\<lparr>M := 4\<rparr>) / 2)
   \<and> confidence_interval (example_put\<lparr>M := 4\<rparr>) two_sigma (Arr [1, 3]) = Some (2, 1, [1, 3])
   \<and> py_round 2 4 = 2"
proof -
  have h: "[1, 3] \<noteq> ([] :: real list)" "0 \<le> two_sigma (1 - lower (example_put\<lparr>M := 4\<rparr>) / 2)"
    by (simp_all add: two_sigma_def)
  have r: "py_round 1 4 = 1" "py_round 3 4 = 3" "py_round 2 4 = 2"
    by (simp_all add: py_round_def round_half_even_def)
  have "sqrt 4 = 2" using real_sqrt_abs [of 2] by simp
  with confidence_interval_brackets_rounded_mean
    [of "[1, 3]" two_sigma "example_put\<lparr>M := 4\<rparr>", OF h] h r
  show ?thesis
    by (simp add: confidence_interval_def np_mean_def np_std_def mean_def two_sigma_def Let_def)
qed

text \<open>
  The mean itself can lie outside the rounded interval: for the constant array
  \<open>[0.00004]\<close> the deviation is 0 and both bounds round to 0, below the mean.
\<close>

theorem rounded_interval_misses_mean:
  "confidence_interval example_put two_sigma (Arr [4 / 100000]) = Some (4 / 100000, 0, [0, 0])
   \<and> \<not> (4 / 100000 :: real) \<le> 0"
  by (simp add: confidence_interval_def np_mean_def np_std_def mean_def two_sigma_def Let_def
      py_round_def round_half_even_def)

section \<open>The path simulator\<close>

text \<open>
  Claim C4, evaluated on two paths with \<open>N = 1\<close> and the increments \<open>ln 2\<close>, \<open>ln 3\<close> on each
  path. The price matrix has \<open>N + 2 = 3\<close> columns, not \<open>N + 1\<close>, and both of the \<open>N + 1\<close>
  drawn increments of a path enter its prices: \<open>1\<close>, \<open>exp (ln 2)\<close>, \<open>exp (ln 2 + ln 3)\<close>.
\<close>

theorem stock_paths_extra_column:
  "N example_spread = 1
   \<and> normal_draws example_spread example_draw_both = [[ln 2, ln 3], [ln 2, ln 3]]
   \<and> generate_stock_paths example_spread (normal_draws example_spread example_draw_both)
       = ([[1, 2, 6], [1, 2, 6]], [[ln 2, ln 3], [ln 2, ln 3]])"
  by (simp add: example_spread_def normal_draws_def example_draw_both_def upt_rec
      generate_stock_paths_def cumsum_def exp_add)



section \<open>The backward sweep\<close>

subsection \<open>Columns, products and the normal equations\<close>


lemma length_col: "length (col A j) = length A"
  by (simp add: col_def)

lemma length_matvec: "length (matvec A v) = length A"
  by (simp add: matvec_def)

lemma length_set_col: "length v = length A \<Longrightarrow> length (set_col A j v) = length A"
  by (simp add: set_col_def)

lemma set_col_rows:
  assumes "\<forall>row\<in>set A. length row = n"
  shows "\<forall>row\<in>set (set_col A j v). length row = n"
  using assms by (auto simp: set_col_def set_zip)

lemma col_set_col_same:
  assumes "length v = length A" and "\<forall>row\<in>set A. j < length row"
  shows "col (set_col A j v) j = v"
  using assms by (auto simp: col_def set_col_def intro!: nth_equalityI)

lemma col_set_col_other:
  assumes "length v = length A" and "i \<noteq> j"
  shows "col (set_col A j v) i = col A i"
  using assms by (auto simp: col_def set_col_def intro!: nth_equalityI)

lemma dot_sum: "length u = length v \<Longrightarrow> dot u v = (\<Sum>i<length u. u ! i * v ! i)"
  by (simp add: dot_def sum_list_sum_nth atLeast0LessThan)

lemma sum_list_matvec:
  assumes "\<forall>row\<in>set X. length row = length a"
  shows "sum_list (matvec X a) = (\<Sum>m<length X. \<Sum>j<length a. X ! m ! j * a ! j)"
  using assms by (simp add: matvec_def sum_list_sum_nth atLeast0LessThan dot_sum)

lemma np_T_rows:
  assumes "X \<noteq> []" and "\<forall>row\<in>set X. length row = n"
  shows "np_T X = map (col X) [0..<n]"
  using assms by (cases X) (auto simp: np_T_def)

lemma sum_matvec_normal:
  assumes X: "X \<noteq> []" "\<forall>row\<in>set X. length row = n \<and> row ! 0 = 1" and n: "0 < n"
    and a: "length a = n" and y: "length y = length X"
    and eq: "matvec (matmul (np_T X) X) a = matvec (np_T X) y"
  shows "sum_list (matvec X a) = sum_list y"
proof -
  have T: "np_T X = map (col X) [0..<n]" using X by (intro np_T_rows) auto
  have c0: "col X 0 = map (\<lambda>_. 1) X" using X by (simp add: col_def)
  have "matvec (matmul (np_T X) X) a ! 0 = matvec (np_T X) y ! 0" using eq by simp
  moreover have "matvec (np_T X) y ! 0 = sum_list y"
  proof -
    have "matvec (np_T X) y ! 0 = dot (col X 0) y" using n by (simp add: T matvec_def)
    also have "\<dots> = (\<Sum>i<length X. y ! i)" using y by (simp add: dot_sum length_col c0)
    also have "\<dots> = sum_list y" using y by (simp add: sum_list_sum_nth atLeast0LessThan)
    finally show ?thesis .
  qed
  moreover have "matvec (matmul (np_T X) X) a ! 0 = sum_list (matvec X a)"
  proof -
    have "matvec (matmul (np_T X) X) a ! 0 = dot (map (\<lambda>j. dot (col X 0) (col X j)) [0..<n]) a"
      using n by (simp add: T matvec_def matmul_def comp_def)
    also have "\<dots> = (\<Sum>j<n. dot (col X 0) (col X j) * a ! j)"
      using a by (simp add: dot_sum)
    also have "\<dots> = (\<Sum>j<n. (\<Sum>m<length X. X ! m ! j) * a ! j)"
      by (simp add: dot_sum length_col c0) (simp add: col_def)
    also have "\<dots> = (\<Sum>j<n. \<Sum>m<length X. X ! m ! j * a ! j)"
      by (simp add: sum_distrib_right)
    also have "\<dots> = (\<Sum>m<length X. \<Sum>j<n. X ! m ! j * a ! j)"
      by (rule sum.swap)
    also have "\<dots> = sum_list (matvec X a)"
      using X a by (simp add: sum_list_matvec)
    finally show ?thesis .
  qed
  ultimately show ?thesis by simp
qed


lemma dot_cols:
  assumes "length y = length X"
  shows "dot (col X p) y = (\<Sum>m<length X. X ! m ! p * y ! m)"
  using assms by (simp add: dot_sum length_col) (simp add: col_def)

lemma normal_matrix_entries:
  assumes "X \<noteq> []" and "\<forall>row\<in>set X. length row = n"
  shows "matmul (np_T X) X
     = map (\<lambda>p. map (\<lambda>q. \<Sum>m<length X. X ! m ! p * X ! m ! q) [0..<n]) [0..<n]"
proof -
  have "dot (col X p) (col X q) = (\<Sum>m<length X. X ! m ! p * X ! m ! q)" for p q
    using dot_cols [of "col X q" X p] by (simp add: length_col) (simp add: col_def)
  then show ?thesis
    by (simp add: matmul_def np_T_rows [OF assms] comp_def)
qed

lemma normal_rhs_entries:
  assumes "X \<noteq> []" and "\<forall>row\<in>set X. length row = n" and "length y = length X"
  shows "matvec (np_T X) y = map (\<lambda>p. \<Sum>m<length X. X ! m ! p * y ! m) [0..<n]"
  using dot_cols [OF assms(3)] by (simp add: matvec_def np_T_rows [OF assms(1,2)] comp_def)

subsection \<open>The Laguerre polynomials in closed form\<close>

lemma laguerre_coefficients:
  fixes k i :: nat
  shows "(real k + 2) * (real (Suc (Suc k) choose Suc i) / fact (Suc i))
       = (2 * real k + 3) * (real (Suc k choose Suc i) / fact (Suc i))
         - (real k + 1) * (real (k choose Suc i) / fact (Suc i))
         + real (Suc k choose i) / fact i"
proof -
  define g where "g = real (Suc k choose i)"
  define a where "a = real (k choose i)"
  define b where "b = real (k choose Suc i)"
  have s1: "real (Suc k choose Suc i) = a + b" by (simp add: a_def b_def)
  have s2: "real (Suc (Suc k) choose Suc i) = g + (a + b)" by (simp add: g_def a_def b_def)
  have "Suc k * (k choose i) = (Suc k choose Suc i) * Suc i"
    by (rule Suc_times_binomial_eq)
  then have "real (Suc k * (k choose i)) = real ((Suc k choose Suc i) * Suc i)" by simp
  then have e2: "(real k + 1) * a = (a + b) * (real i + 1)"
    by (simp add: a_def b_def algebra_simps)
  have "Suc (Suc k) * (Suc k choose i) = (Suc (Suc k) choose Suc i) * Suc i"
    by (rule Suc_times_binomial_eq)
  then have "real (Suc (Suc k) * (Suc k choose i)) = real ((Suc (Suc k) choose Suc i) * Suc i)"
    by simp
  then have e1: "(real k + 2) * g = (g + (a + b)) * (real i + 1)"
    unfolding s2 [symmetric] by (simp add: g_def algebra_simps)
  have "(real k + 2) * (g + (a + b)) = (2 * real k + 3) * (a + b) - (real k + 1) * b + (real i + 1) * g"
    using e1 e2 by (simp add: algebra_simps)
  then have "(real k + 2) * (g + (a + b)) / fact (Suc i)
      = ((2 * real k + 3) * (a + b) - (real k + 1) * b) / fact (Suc i) + (real i + 1) * g / fact (Suc i)"
    by (simp add: add_divide_distrib)
  moreover have "(real i + 1) * g / fact (Suc i) = g / fact i"
  proof -
    have f: "(fact (Suc i) :: real) = (real i + 1) * fact i" by (simp add: algebra_simps)
    have nz: "real i + 1 \<noteq> 0" by (metis of_nat_Suc of_nat_neq_0 add.commute)
    show ?thesis unfolding f using nz by (rule mult_divide_mult_cancel_left)
  qed
  ultimately show ?thesis
    unfolding s1 s2 g_def [symmetric] b_def [symmetric]
    by (simp add: diff_divide_distrib)
qed


lemma laguerre_sum_recurrence:
  fixes k :: nat and t :: real
  defines "f \<equiv> \<lambda>n j. real (n choose j) / fact j * t ^ j"
  shows "(real k + 2) * (\<Sum>j\<le>Suc (Suc k). f (Suc (Suc k)) j)
       = (2 * real k + 3 + t) * (\<Sum>j\<le>Suc k. f (Suc k) j) - (real k + 1) * (\<Sum>j\<le>k. f k j)"
proof -
  have f0: "f n 0 = 1" for n by (simp add: f_def)
  have L2: "(\<Sum>j\<le>Suc (Suc k). f (Suc (Suc k)) j) = 1 + (\<Sum>i\<le>Suc k. f (Suc (Suc k)) (Suc i))"
    by (subst sum.atMost_Suc_shift) (simp add: f0)
  have z: "f n j = 0" if "n < j" for n j
    using that by (simp add: f_def binomial_eq_0)
  have "(\<Sum>j\<le>Suc k. f (Suc k) j) = (\<Sum>j\<le>Suc (Suc k). f (Suc k) j)"
    by (simp only: sum.atMost_Suc [of _ "Suc k"] z [of "Suc k" "Suc (Suc k)", simplified] add_0_right)
  also have "\<dots> = 1 + (\<Sum>i\<le>Suc k. f (Suc k) (Suc i))"
    by (subst sum.atMost_Suc_shift) (simp add: f0)
  finally have L1: "(\<Sum>j\<le>Suc k. f (Suc k) j) = 1 + (\<Sum>i\<le>Suc k. f (Suc k) (Suc i))" .
  have "(\<Sum>j\<le>k. f k j) = (\<Sum>j\<le>Suc (Suc k). f k j)"
    by (simp only: sum.atMost_Suc [of _ "Suc k"] sum.atMost_Suc [of _ k]
        z [of k "Suc (Suc k)", simplified] z [of k "Suc k", simplified] add_0_right)
  also have "\<dots> = 1 + (\<Sum>i\<le>Suc k. f k (Suc i))"
    by (subst sum.atMost_Suc_shift) (simp add: f0)
  finally have L0: "(\<Sum>j\<le>k. f k j) = 1 + (\<Sum>i\<le>Suc k. f k (Suc i))" .
  have T: "t * (\<Sum>j\<le>Suc k. f (Suc k) j) = (\<Sum>i\<le>Suc k. real (Suc k choose i) / fact i * t ^ Suc i)"
    by (simp add: f_def sum_distrib_left algebra_simps)
  have tm: "(real k + 2) * f (Suc (Suc k)) (Suc i)
      = (2 * real k + 3) * f (Suc k) (Suc i) + real (Suc k choose i) / fact i * t ^ Suc i
        - (real k + 1) * f k (Suc i)" for i
  proof -
    have "(real k + 2) * f (Suc (Suc k)) (Suc i)
        = ((real k + 2) * (real (Suc (Suc k) choose Suc i) / fact (Suc i))) * t ^ Suc i"
      by (simp add: f_def)
    also have "\<dots> = ((2 * real k + 3) * (real (Suc k choose Suc i) / fact (Suc i))
         - (real k + 1) * (real (k choose Suc i) / fact (Suc i))
         + real (Suc k choose i) / fact i) * t ^ Suc i"
      by (simp only: laguerre_coefficients)
    also have "\<dots> = (2 * real k + 3) * f (Suc k) (Suc i) + real (Suc k choose i) / fact i * t ^ Suc i
        - (real k + 1) * f k (Suc i)"
      unfolding f_def by (simp add: algebra_simps)
    finally show ?thesis .
  qed
  have "(real k + 2) * (\<Sum>i\<le>Suc k. f (Suc (Suc k)) (Suc i))
      = (\<Sum>i\<le>Suc k. (real k + 2) * f (Suc (Suc k)) (Suc i))"
    by (rule sum_distrib_left)
  also have "\<dots> = (\<Sum>i\<le>Suc k. (2 * real k + 3) * f (Suc k) (Suc i)
        + real (Suc k choose i) / fact i * t ^ Suc i - (real k + 1) * f k (Suc i))"
    by (simp only: tm)
  also have "\<dots> = (2 * real k + 3) * (\<Sum>i\<le>Suc k. f (Suc k) (Suc i))
        + t * (\<Sum>j\<le>Suc k. f (Suc k) j) - (real k + 1) * (\<Sum>i\<le>Suc k. f k (Suc i))"
    unfolding T by (simp only: sum_subtractf sum.distrib sum_distrib_left)
  finally have S: "(real k + 2) * (\<Sum>i\<le>Suc k. f (Suc (Suc k)) (Suc i))
      = (2 * real k + 3) * (\<Sum>i\<le>Suc k. f (Suc k) (Suc i))
        + t * (\<Sum>j\<le>Suc k. f (Suc k) j) - (real k + 1) * (\<Sum>i\<le>Suc k. f k (Suc i))" .
  have "(real k + 2) * (\<Sum>j\<le>Suc (Suc k). f (Suc (Suc k)) j)
      = (real k + 2) + (real k + 2) * (\<Sum>i\<le>Suc k. f (Suc (Suc k)) (Suc i))"
    unfolding L2 by (simp add: algebra_simps)
  also have "\<dots> = (2 * real k + 3) * (1 + (\<Sum>i\<le>Suc k. f (Suc k) (Suc i)))
        + t * (\<Sum>j\<le>Suc k. f (Suc k) j) - (real k + 1) * (1 + (\<Sum>i\<le>Suc k. f k (Suc i)))"
    unfolding S by (simp add: algebra_simps)
  also have "\<dots> = (2 * real k + 3 + t) * (\<Sum>j\<le>Suc k. f (Suc k) j) - (real k + 1) * (\<Sum>j\<le>k. f k j)"
    unfolding L1 [symmetric] L0 [symmetric] by (simp add: algebra_simps)
  finally show ?thesis .
qed

lemma laguerre_closed_form:
  "laguerre k x = (\<Sum>j\<le>k. real (k choose j) / fact j * (- x) ^ j)"
proof (induction k x rule: laguerre.induct)
  case (1 x)
  show ?case by simp
next
  case (2 x)
  show ?case by simp
next
  case (3 k x)
  have nz: "real k + 2 \<noteq> 0" by (metis add.commute of_nat_Suc of_nat_neq_0 of_nat_add one_add_one add.assoc)
  have "laguerre (Suc (Suc k)) x
      = ((2 * real k + 3 + (- x)) * (\<Sum>j\<le>Suc k. real (Suc k choose j) / fact j * (- x) ^ j)
          - (real k + 1) * (\<Sum>j\<le>k. real (k choose j) / fact j * (- x) ^ j)) / (real k + 2)"
    by (simp add: "3.IH")
  also have "\<dots> = ((real k + 2)
        * (\<Sum>j\<le>Suc (Suc k). real (Suc (Suc k) choose j) / fact j * (- x) ^ j)) / (real k + 2)"
    by (simp only: laguerre_sum_recurrence)
  also have "\<dots> = (\<Sum>j\<le>Suc (Suc k). real (Suc (Suc k) choose j) / fact j * (- x) ^ j)"
    using nz by (rule nonzero_mult_div_cancel_left)
  finally show ?case .
qed

lemma generate_regression_explicit:
  assumes "1 \<le> degree c" and "degree c \<le> 20"
  shows "generate_regression c S
     = Inr (map (\<lambda>s. map (\<lambda>k. \<Sum>j\<le>k. real (k choose j) / fact j * (- s) ^ j)
                     [0..<nat (degree c) + 1]) S)"
  using assms by (simp add: generate_regression_def laguerre_closed_form del: upt_Suc)

subsection \<open>The simulated prices\<close>

lemma cumsum_from_nth:
  "n < length xs \<Longrightarrow> cumsum_from acc xs ! n = acc + sum_list (take (Suc n) xs)"
proof (induction xs arbitrary: acc n)
  case Nil
  then show ?case by simp
next
  case (Cons x xs)
  then show ?case by (cases n) (simp_all add: algebra_simps)
qed

lemma length_cumsum_from: "length (cumsum_from acc xs) = length xs"
  by (induction xs arbitrary: acc) simp_all

lemma cumsum_nth:
  assumes "n \<le> length xs"
  shows "(0 # cumsum xs) ! n = sum_list (take n xs)"
  using assms by (cases n) (simp_all add: cumsum_def cumsum_from_nth)

lemma simulated_prices_nth:
  assumes "m < M c" and "n \<le> N c + 1"
  shows "simulated_prices c draw ! m ! n
     = S0 c * exp (\<Sum>j<n. (mu c - 0.5 * (sigma c)\<^sup>2) * (T c / real (N c)) + sigma c * draw m j)"
proof -
  let ?f = "\<lambda>w. (mu c - 0.5 * (sigma c)\<^sup>2) * (T c / real (N c)) + sigma c * w"
  let ?row = "map ?f (map (draw m) [0..<N c + 1])"
  have row: "simulated_prices c draw ! m = map (\<lambda>x. S0 c * exp x) (0 # cumsum ?row)"
    using assms(1)
    by (simp add: simulated_prices_def generate_stock_paths_def normal_draws_def Let_def
        del: upt_Suc list.map)
  have "n < length (0 # cumsum ?row)"
    using assms(2) by (simp add: cumsum_def length_cumsum_from del: upt_Suc)
  then have "simulated_prices c draw ! m ! n = S0 c * exp ((0 # cumsum ?row) ! n)"
    unfolding row by (rule nth_map)
  also have "(0 # cumsum ?row) ! n = sum_list (take n ?row)"
    using assms by (intro cumsum_nth) simp
  also have "take n ?row = map (\<lambda>j. ?f (draw m j)) [0..<n]"
    using assms by (simp add: take_map take_upt comp_def del: upt_Suc)
  also have "sum_list \<dots> = (\<Sum>j<n. ?f (draw m j))"
    by (simp add: interv_sum_list_conv_sum_set_nat atLeast0LessThan)
  finally show ?thesis .
qed

subsection \<open>The loops\<close>

lemma generate_regression_ok:
  assumes "1 \<le> degree c" and "degree c \<le> 20"
  shows "\<exists>X. generate_regression c S = Inr X \<and> length X = length S
           \<and> (\<forall>row\<in>set X. length row = nat (degree c) + 1 \<and> row ! 0 = 1)"
proof -
  have "map (\<lambda>k. laguerre k s) [0..<nat (degree c) + 1] ! 0 = 1" for s
    by (simp add: nth_append del: upt_Suc)
  with assms show ?thesis
    by (auto simp: generate_regression_def simp del: upt_Suc)
qed

lemma set_last_col_eq:
  assumes "\<forall>row\<in>set A. length row = Suc n"
  shows "set_last_col A v = set_col A n v"
proof -
  have "(\<lambda>(row, x). row[length row - 1 := x]) p = (\<lambda>(row, x). row[n := x]) p"
    if "p \<in> set (zip A v)" for p
  proof -
    obtain row x where p: "p = (row, x)" by (cases p)
    with that have "row \<in> set A" by (auto dest: set_zip_leftD)
    with assms have "length row - 1 = n" by simp
    with p show ?thesis by simp
  qed
  then show ?thesis
    unfolding set_last_col_def set_col_def by (intro map_cong refl)
qed

lemma backward_european_steps:
  assumes deg: "1 \<le> degree c" "degree c \<le> 20" and S: "S \<noteq> []"
    and shape: "length Y = length S" "\<forall>row\<in>set Y. length row = n" and j: "j < n"
  shows "\<exists>Y'. backward_european c lstsq S j Y = Inr Y' \<and> length Y' = length S
           \<and> (\<forall>row\<in>set Y'. length row = n)
           \<and> (\<forall>i. j \<le> i \<longrightarrow> col Y' i = col Y i)
           \<and> (\<forall>i. 1 \<le> i \<and> i \<le> j \<longrightarrow> european_step c lstsq S Y' i)"
  using shape j
proof (induction j arbitrary: Y)
  case 0
  then show ?case by simp
next
  case (Suc j)
  let ?d = "nat (degree c) + 1"
  obtain X where X: "generate_regression c (col S (Suc j)) = Inr X" "length X = length S"
    "\<forall>row\<in>set X. length row = ?d"
    using generate_regression_ok [OF deg, of "col S (Suc j)"] by (auto simp: length_col)
  have Xe: "X = map (\<lambda>s. map (\<lambda>k. \<Sum>j\<le>k. real (k choose j) / fact j * (- s) ^ j) [0..<?d])
                (col S (Suc j))"
    using X(1) generate_regression_explicit [OF deg, of "col S (Suc j)"] by simp
  have ne: "X \<noteq> []" using X(2) S by auto
  define A where "A = matmul (np_T X) X"
  define b where "b = matvec (np_T X) (col Y (Suc j))"
  have Ae: "A = map (\<lambda>p. map (\<lambda>q. \<Sum>m<length X. X ! m ! p * X ! m ! q) [0..<?d]) [0..<?d]"
    unfolding A_def using ne X(3) by (rule normal_matrix_entries)
  have be: "b = map (\<lambda>p. \<Sum>m<length X. X ! m ! p * col Y (Suc j) ! m) [0..<?d]"
    unfolding b_def using ne X(3) by (rule normal_rhs_entries) (simp add: length_col X(2) Suc.prems)
  define v where "v = map (\<lambda>v. v * exp (- r c * dt c)) (matvec X (lstsq A b))"
  have lv: "length v = length Y" using X Suc.prems by (simp add: v_def length_matvec)
  define Y1 where "Y1 = set_col Y j v"
  have s1: "length Y1 = length S" "\<forall>row\<in>set Y1. length row = n"
    using lv Suc.prems set_col_rows [of Y n j v] by (simp_all add: Y1_def length_set_col)
  have "\<exists>Y'. backward_european c lstsq S j Y1 = Inr Y' \<and> length Y' = length S
           \<and> (\<forall>row\<in>set Y'. length row = n)
           \<and> (\<forall>i. j \<le> i \<longrightarrow> col Y' i = col Y1 i)
           \<and> (\<forall>i. 1 \<le> i \<and> i \<le> j \<longrightarrow> european_step c lstsq S Y' i)"
    using Suc.prems(3) by (intro Suc.IH s1) simp
  then obtain Y' where Y':
    "backward_european c lstsq S j Y1 = Inr Y'" "length Y' = length S"
    "\<forall>row\<in>set Y'. length row = n" "\<forall>i. j \<le> i \<longrightarrow> col Y' i = col Y1 i"
    "\<forall>i. 1 \<le> i \<and> i \<le> j \<longrightarrow> european_step c lstsq S Y' i"
    by auto
  have run: "backward_european c lstsq S (Suc j) Y = Inr Y'"
    using X Y' by (simp add: Y1_def v_def A_def b_def Let_def)
  have above: "col Y' i = col Y i" if "Suc j \<le> i" for i
    using that Y'(4) lv by (simp add: Y1_def col_set_col_other)
  have low: "col Y' j = v"
    using Y'(4) lv Suc.prems by (simp add: Y1_def col_set_col_same)
  have "european_step c lstsq S Y' (Suc j)"
    unfolding european_step_def
  proof (intro exI conjI)
    show "generate_regression c (col S (Suc j)) = Inr X" by (rule X(1))
    show "X = map (\<lambda>s. map (\<lambda>k. \<Sum>j\<le>k. real (k choose j) / fact j * (- s) ^ j) [0..<?d])
                (col S (Suc j))"
      by (rule Xe)
    show "A = matmul (np_T X) X" by (rule A_def)
    show "A = map (\<lambda>p. map (\<lambda>q. \<Sum>m<length X. X ! m ! p * X ! m ! q) [0..<?d]) [0..<?d]"
      by (rule Ae)
    show "b = matvec (np_T X) (col Y' (Suc j))" using above [of "Suc j"] by (simp add: b_def)
    show "b = map (\<lambda>p. \<Sum>m<length X. X ! m ! p * col Y' (Suc j) ! m) [0..<?d]"
      using above [of "Suc j"] be by simp
    show "lstsq A b = lstsq A b" by (rule refl)
    show "col Y' (Suc j - 1) = map (\<lambda>v. v * exp (- r c * dt c)) (matvec X (lstsq A b))"
      using low by (simp add: v_def)
  qed
  then have "european_step c lstsq S Y' i" if "1 \<le> i \<and> i \<le> Suc j" for i
    using that Y'(5) by (cases "i = Suc j") auto
  with run Y' above show ?case by auto
qed

lemma payoff_func_ok:
  assumes "option_payoff c = ''call'' \<or> option_payoff c = ''put''"
  shows "\<exists>p. payoff_func c S = Inr p \<and> length p = length S"
  using assms by (auto simp: payoff_func_def)

lemma sum_list_le_map2_max:
  "length xs = length ys \<Longrightarrow> sum_list xs \<le> sum_list (map2 max xs (ys :: real list))"
  by (induction xs ys rule: list_induct2) (auto simp: max_def)

lemma sum_list_scaled: "sum_list (map (\<lambda>v. v * d) xs) = sum_list xs * (d :: real)"
  by (induction xs) (simp_all add: algebra_simps)

lemma normal_equations_sum:
  assumes X: "length X = m" "0 < m" "\<forall>row\<in>set X. length row = Suc d \<and> row ! 0 = 1"
    and sol: "solves_normal_equations lstsq X" and y: "length y = m"
  shows "sum_list (matvec X (lstsq (matmul (np_T X) X) (matvec (np_T X) y))) = sum_list y"
proof -
  have ne: "X \<noteq> []" using X by auto
  have T: "length (np_T X) = Suc d"
    using np_T_rows [OF ne, of "Suc d"] X by simp
  from sol y X have
    "length (lstsq (matmul (np_T X) X) (matvec (np_T X) y)) = Suc d"
    "matvec (matmul (np_T X) X) (lstsq (matmul (np_T X) X) (matvec (np_T X) y))
       = matvec (np_T X) y"
    unfolding solves_normal_equations_def T by auto
  then show ?thesis
    using sum_matvec_normal [OF ne X(3) _ _ _ , of "lstsq (matmul (np_T X) X) (matvec (np_T X) y)" y]
      y X by simp
qed

lemma american_dominates_loop:
  assumes deg: "1 \<le> degree c" "degree c \<le> 20"
    and kind: "option_payoff c = ''call'' \<or> option_payoff c = ''put''"
    and S: "S \<noteq> []"
    and shape: "length Ye = length S" "\<forall>row\<in>set Ye. length row = n"
      "length Ya = length S" "\<forall>row\<in>set Ya. length row = n"
    and j: "j < n"
    and sol: "\<forall>i X. 1 \<le> i \<and> i \<le> j \<and> generate_regression c (col S i) = Inr X
                 \<longrightarrow> solves_normal_equations lstsq X"
    and le: "sum_list (col Ye j) \<le> sum_list (col Ya j)"
  shows "\<exists>Ye' Ya'. backward_european c lstsq S j Ye = Inr Ye'
           \<and> backward_american c lstsq S j Ya = Inr Ya'
           \<and> length Ye' = length S \<and> length Ya' = length S
           \<and> sum_list (col Ye' 0) \<le> sum_list (col Ya' 0)"
  using shape j sol le
proof (induction j arbitrary: Ye Ya)
  case 0
  then show ?case by simp
next
  case (Suc j)
  let ?d = "exp (- r c * dt c)"
  obtain X where X: "generate_regression c (col S (Suc j)) = Inr X" "length X = length S"
    "\<forall>row\<in>set X. length row = Suc (nat (degree c)) \<and> row ! 0 = 1"
    using generate_regression_ok [OF deg, of "col S (Suc j)"] by (auto simp: length_col)
  obtain ex where ex: "payoff_func c (col S (Suc j)) = Inr ex" "length ex = length S"
    using payoff_func_ok [OF kind, of "col S (Suc j)"] by (auto simp: length_col)
  have solX: "solves_normal_equations lstsq X" using Suc.prems(6) X(1) by auto
  have pos: "0 < length S" using S by simp
  define ce where "ce = matvec X (lstsq (matmul (np_T X) X) (matvec (np_T X) (col Ye (Suc j))))"
  define ca where "ca = matvec X (lstsq (matmul (np_T X) X) (matvec (np_T X) (col Ya (Suc j))))"
  have sce: "sum_list ce = sum_list (col Ye (Suc j))"
    unfolding ce_def using normal_equations_sum [OF X(2) pos X(3) solX] Suc.prems(1)
    by (simp add: length_col)
  have sca: "sum_list ca = sum_list (col Ya (Suc j))"
    unfolding ca_def using normal_equations_sum [OF X(2) pos X(3) solX] Suc.prems(3)
    by (simp add: length_col)
  define ve where "ve = map (\<lambda>v. v * ?d) ce"
  define va where "va = map2 max (map (\<lambda>v. v * ?d) ca) ex"
  have lve: "length ve = length Ye" using X Suc.prems by (simp add: ve_def ce_def length_matvec)
  have lva: "length va = length Ya" using X ex Suc.prems by (simp add: va_def ca_def length_matvec)
  have "sum_list ve = sum_list (col Ye (Suc j)) * ?d" by (simp add: ve_def sum_list_scaled sce)
  also have "\<dots> \<le> sum_list (col Ya (Suc j)) * ?d"
    using Suc.prems(7) by (intro mult_right_mono) simp_all
  also have "\<dots> = sum_list (map (\<lambda>v. v * ?d) ca)" by (simp add: sum_list_scaled sca)
  also have "\<dots> \<le> sum_list va"
    unfolding va_def using X ex by (intro sum_list_le_map2_max) (simp add: ca_def length_matvec)
  finally have le': "sum_list ve \<le> sum_list va" .
  define Ye1 where "Ye1 = set_col Ye j ve"
  define Ya1 where "Ya1 = set_col Ya j va"
  have s1: "length Ye1 = length S" "\<forall>row\<in>set Ye1. length row = n"
    "length Ya1 = length S" "\<forall>row\<in>set Ya1. length row = n"
    using lve lva Suc.prems set_col_rows [of Ye n j ve] set_col_rows [of Ya n j va]
    by (simp_all add: Ye1_def Ya1_def length_set_col)
  have cols: "col Ye1 j = ve" "col Ya1 j = va"
    using lve lva Suc.prems by (simp_all add: Ye1_def Ya1_def col_set_col_same)
  have "\<exists>Ye' Ya'. backward_european c lstsq S j Ye1 = Inr Ye'
           \<and> backward_american c lstsq S j Ya1 = Inr Ya'
           \<and> length Ye' = length S \<and> length Ya' = length S
           \<and> sum_list (col Ye' 0) \<le> sum_list (col Ya' 0)"
  proof (intro Suc.IH s1)
    show "j < n" using Suc.prems(5) by simp
    show "\<forall>i X. 1 \<le> i \<and> i \<le> j \<and> generate_regression c (col S i) = Inr X
            \<longrightarrow> solves_normal_equations lstsq X"
      using Suc.prems(6) by (meson le_SucI)
    show "sum_list (col Ye1 j) \<le> sum_list (col Ya1 j)" using le' by (simp add: cols)
  qed
  then show ?case
    using X ex by (simp add: Ye1_def Ya1_def ve_def va_def ce_def ca_def Let_def)
qed


lemma length_simulated_prices: "length (simulated_prices c draw) = M c"
  by (simp add: simulated_prices_def generate_stock_paths_def normal_draws_def Let_def)

lemma initial_Y:
  assumes "length p = m"
  shows "length (set_last_col (zeros m (Suc n)) p) = m"
    and "\<forall>row\<in>set (set_last_col (zeros m (Suc n)) p). length row = Suc n"
    and "col (set_last_col (zeros m (Suc n)) p) n = p"
proof -
  have rows: "\<forall>row\<in>set (zeros m (Suc n)). length row = Suc n" by (simp add: zeros_def)
  have len: "length p = length (zeros m (Suc n))" using assms by (simp add: zeros_def)
  have eq: "set_last_col (zeros m (Suc n)) p = set_col (zeros m (Suc n)) n p"
    using rows by (rule set_last_col_eq)
  show "length (set_last_col (zeros m (Suc n)) p) = m"
    using len assms by (simp add: eq length_set_col)
  show "\<forall>row\<in>set (set_last_col (zeros m (Suc n)) p). length row = Suc n"
    unfolding eq using rows by (rule set_col_rows)
  show "col (set_last_col (zeros m (Suc n)) p) n = p"
    unfolding eq using len rows by (intro col_set_col_same) auto
qed

lemma batch_european_unfold:
  "batch_european c lstsq (normal_draws c draw) =
     (case payoff_func c (last_col (simulated_prices c draw)) of
        Inl e \<Rightarrow> Inl e
      | Inr p \<Rightarrow> backward_european c lstsq (simulated_prices c draw) (N c)
                   (set_last_col (zeros (M c) (Suc (N c))) p))"
  by (simp add: batch_european_def simulated_prices_def generate_stock_paths_def Let_def
      cong: sum.case_cong)

lemma batch_american_unfold:
  "batch_american c lstsq (normal_draws c draw) =
     (case payoff_func c (last_col (simulated_prices c draw)) of
        Inl e \<Rightarrow> Inl e
      | Inr p \<Rightarrow> backward_american c lstsq (simulated_prices c draw) (N c)
                   (set_last_col (zeros (M c) (Suc (N c))) p))"
  by (simp add: batch_american_def simulated_prices_def generate_stock_paths_def Let_def
      cong: sum.case_cong)

lemma for_batches_ok:
  "(\<forall>k\<in>set ks. f k = Inr (g k)) \<Longrightarrow> for_batches f ks = Inr (map g ks)"
  by (induction ks) simp_all

lemma batch_american_ge_european:
  assumes v: "valid_config c"
    and sol: "\<forall>i X. 1 \<le> i \<and> i \<le> N c
                 \<and> generate_regression c (col (simulated_prices c draw) i) = Inr X
                 \<longrightarrow> solves_normal_equations lstsq X"
  shows "\<exists>Ye Ya. batch_european c lstsq (normal_draws c draw) = Inr Ye
           \<and> batch_american c lstsq (normal_draws c draw) = Inr Ya
           \<and> mean (col Ye 0) \<le> mean (col Ya 0)"
proof -
  let ?S = "simulated_prices c draw"
  have M: "0 < M c" and lS: "length ?S = M c"
    using v by (simp_all add: valid_config_def length_simulated_prices)
  obtain p where p: "payoff_func c (last_col ?S) = Inr p" "length p = M c"
    using payoff_func_ok [of c "last_col ?S"] v lS
    by (auto simp: valid_config_def last_col_def)
  let ?Y = "set_last_col (zeros (M c) (Suc (N c))) p"
  have "\<exists>Ye' Ya'. backward_european c lstsq ?S (N c) ?Y = Inr Ye'
           \<and> backward_american c lstsq ?S (N c) ?Y = Inr Ya'
           \<and> length Ye' = length ?S \<and> length Ya' = length ?S
           \<and> sum_list (col Ye' 0) \<le> sum_list (col Ya' 0)"
  proof (rule american_dominates_loop [where n = "Suc (N c)"])
    show "1 \<le> degree c" "degree c \<le> 20"
      "option_payoff c = ''call'' \<or> option_payoff c = ''put''"
      using v by (simp_all add: valid_config_def)
    show "?S \<noteq> []" using M lS by auto
    show "length ?Y = length ?S" "length ?Y = length ?S"
      using initial_Y(1) [OF p(2)] lS by simp_all
    show "\<forall>row\<in>set ?Y. length row = Suc (N c)" "\<forall>row\<in>set ?Y. length row = Suc (N c)"
      using initial_Y(2) [OF p(2)] by simp_all
    show "N c < Suc (N c)" by simp
    show "\<forall>i X. 1 \<le> i \<and> i \<le> N c \<and> generate_regression c (col ?S i) = Inr X
            \<longrightarrow> solves_normal_equations lstsq X"
      using sol .
    show "sum_list (col ?Y (N c)) \<le> sum_list (col ?Y (N c))" by simp
  qed
  then obtain Ye Ya where r:
    "backward_european c lstsq ?S (N c) ?Y = Inr Ye" "backward_american c lstsq ?S (N c) ?Y = Inr Ya"
    "length Ye = M c" "length Ya = M c" "sum_list (col Ye 0) \<le> sum_list (col Ya 0)"
    using lS by auto
  have "mean (col Ye 0) \<le> mean (col Ya 0)"
    using r M by (simp add: mean_def length_col divide_right_mono)
  then show ?thesis
    using r p by (simp add: batch_european_unfold batch_american_unfold)
qed

lemma mean_mono:
  assumes "length xs = length ys" and "\<forall>k<length xs. xs ! k \<le> (ys ! k :: real)"
  shows "mean xs \<le> mean ys"
proof -
  have "sum_list xs \<le> sum_list ys"
    using assms by (auto simp: sum_list_sum_nth intro!: sum_mono)
  then show ?thesis using assms by (simp add: mean_def divide_right_mono)
qed

text \<open>
  Claim C9, as amended. For a valid configuration, the same draws in every batch and a
  least-squares routine that solves the normal equations of every basis matrix of the run
  exactly, both solvers return; batch by batch the estimate of the American solver is at least the estimate of
  the European solver, and so is the price estimate, the mean over the batches, whenever
  there is one. (The first basis column is constant, so the regression keeps the sum over
  the paths; the exercise floor can only raise it.)
\<close>

theorem american_price_ge_european:
  assumes v: "valid_config c"
    and sol: "\<forall>k i X. k < nat (samples c) \<and> 1 \<le> i \<and> i \<le> N c
                 \<and> generate_regression c (col (simulated_prices c (rng k)) i) = Inr X
                 \<longrightarrow> solves_normal_equations lstsq X"
  shows "\<exists>eu am. bsde_solver_european c lstsq rng = Inr (eu, Num 0)
           \<and> bsde_solver_american c lstsq rng = Inr (am, Num 0)
           \<and> length eu = nat (samples c) \<and> length am = nat (samples c)
           \<and> (\<forall>k<nat (samples c). eu ! k \<le> am ! k)
           \<and> (\<forall>e a. np_mean (Arr eu) = Some e \<and> np_mean (Arr am) = Some a \<longrightarrow> e \<le> a)"
proof -
  let ?n = "nat (samples c)"
  let ?be = "\<lambda>k. batch_european c lstsq (normal_draws c (rng k))"
  let ?ba = "\<lambda>k. batch_american c lstsq (normal_draws c (rng k))"
  let ?ge = "\<lambda>k. mean (col (projr (?be k)) 0)"
  let ?ga = "\<lambda>k. mean (col (projr (?ba k)) 0)"
  have each: "\<exists>Ye Ya. ?be k = Inr Ye \<and> ?ba k = Inr Ya \<and> mean (col Ye 0) \<le> mean (col Ya 0)"
    if "k < ?n" for k
    using that sol by (intro batch_american_ge_european [OF v]) blast
  have e: "for_batches (\<lambda>k. case ?be k of Inl e \<Rightarrow> Inl e | Inr Y \<Rightarrow> Inr (mean (col Y 0))) [0..<?n]
             = Inr (map ?ge [0..<?n])"
    by (rule for_batches_ok) (use each in fastforce)
  have a: "for_batches (\<lambda>k. case ?ba k of Inl e \<Rightarrow> Inl e | Inr Y \<Rightarrow> Inr (mean (col Y 0))) [0..<?n]
             = Inr (map ?ga [0..<?n])"
    by (rule for_batches_ok) (use each in fastforce)
  have le: "\<forall>k<?n. ?ge k \<le> ?ga k" using each by fastforce
  have s: "\<not> samples c < 0" using v by (simp add: valid_config_def)
  have "mean (map ?ge [0..<?n]) \<le> mean (map ?ga [0..<?n])"
    using le by (intro mean_mono) simp_all
  then have "\<forall>x y. np_mean (Arr (map ?ge [0..<?n])) = Some x
      \<and> np_mean (Arr (map ?ga [0..<?n])) = Some y \<longrightarrow> x \<le> y"
    by (auto simp: np_mean_def split: if_splits)
  with le show ?thesis
    using s by (simp add: bsde_solver_european_def bsde_solver_american_def e a)
qed


lemma batch_european_steps:
  assumes v: "valid_config c"
  shows "\<exists>Y. batch_european c lstsq (normal_draws c draw) = Inr Y
           \<and> length (col Y 0) = M c
           \<and> payoff_func c (last_col (simulated_prices c draw)) = Inr (col Y (N c))
           \<and> (\<forall>i. 1 \<le> i \<and> i \<le> N c \<longrightarrow> european_step c lstsq (simulated_prices c draw) Y i)"
proof -
  let ?S = "simulated_prices c draw"
  have lS: "length ?S = M c" by (rule length_simulated_prices)
  have M: "0 < M c" using v by (simp add: valid_config_def)
  obtain p where p: "payoff_func c (last_col ?S) = Inr p" "length p = M c"
    using payoff_func_ok [of c "last_col ?S"] v lS
    by (auto simp: valid_config_def last_col_def)
  let ?Y = "set_last_col (zeros (M c) (Suc (N c))) p"
  have "\<exists>Y'. backward_european c lstsq ?S (N c) ?Y = Inr Y' \<and> length Y' = length ?S
           \<and> (\<forall>row\<in>set Y'. length row = Suc (N c))
           \<and> (\<forall>i. N c \<le> i \<longrightarrow> col Y' i = col ?Y i)
           \<and> (\<forall>i. 1 \<le> i \<and> i \<le> N c \<longrightarrow> european_step c lstsq ?S Y' i)"
  proof (rule backward_european_steps)
    show "1 \<le> degree c" "degree c \<le> 20" using v by (simp_all add: valid_config_def)
    show "?S \<noteq> []" using M lS by auto
    show "length ?Y = length ?S" using initial_Y(1) [OF p(2)] lS by simp
    show "\<forall>row\<in>set ?Y. length row = Suc (N c)" using initial_Y(2) [OF p(2)] by simp
    show "N c < Suc (N c)" by simp
  qed
  then obtain Y where Y: "backward_european c lstsq ?S (N c) ?Y = Inr Y" "length Y = M c"
    "col Y (N c) = col ?Y (N c)"
    "\<forall>i. 1 \<le> i \<and> i \<le> N c \<longrightarrow> european_step c lstsq ?S Y i"
    using lS by auto
  have "col Y (N c) = p" using Y(3) initial_Y(3) [OF p(2)] by simp
  with Y p show ?thesis
    by (simp add: batch_european_unfold length_col)
qed

text \<open>
  Claim C1, as amended. For a valid configuration, any draws and any least-squares routine,
  the plain European solver returns. In every batch the prices are
  \<open>S[m, n] = S0 exp (\<Sum>j<n. (\<mu> - \<sigma>\<^sup>2 / 2) T / N + \<sigma> dW[m, j])\<close>, the final \<open>Y\<close> holds the
  terminal payoff in its last column and, for each \<open>i\<close> from \<open>N\<close> down to 1, its column
  \<open>i - 1\<close> is \<open>exp (- r dt)\<close> times \<open>X \<alpha>\<close>, where \<open>X\<close> is the Laguerre basis matrix of \<open>S[:, i]\<close>
  and \<open>\<alpha>\<close> is what the least-squares routine returns for the system with the matrix
  \<open>X\<^sup>T X\<close> and the right-hand side \<open>X\<^sup>T Y[:, i]\<close>. The estimate of the batch is the mean
  of column 0 over the \<open>M\<close> paths. (That \<open>\<alpha>\<close> solves the system exactly is not part of the
  statement.)
\<close>

theorem european_solver_steps:
  assumes v: "valid_config c"
  shows "\<exists>Ys. length Ys = nat (samples c)
           \<and> bsde_solver_european c lstsq rng
               = Inr (map (\<lambda>Y. sum_list (col Y 0) / real (M c)) Ys, Num 0)
           \<and> (\<forall>k<nat (samples c).
                 batch_european c lstsq (normal_draws c (rng k)) = Inr (Ys ! k)
                 \<and> length (col (Ys ! k) 0) = M c
                 \<and> (\<forall>m<M c. \<forall>n\<le>N c + 1.
                       simulated_prices c (rng k) ! m ! n
                         = S0 c * exp (\<Sum>j<n. (mu c - 0.5 * (sigma c)\<^sup>2) * (T c / real (N c))
                                               + sigma c * rng k m j))
                 \<and> payoff_func c (last_col (simulated_prices c (rng k)))
                     = Inr (col (Ys ! k) (N c))
                 \<and> (\<forall>i. 1 \<le> i \<and> i \<le> N c \<longrightarrow>
                       european_step c lstsq (simulated_prices c (rng k)) (Ys ! k) i))"
proof -
  let ?n = "nat (samples c)"
  let ?b = "\<lambda>k. batch_european c lstsq (normal_draws c (rng k))"
  let ?Ys = "map (\<lambda>k. projr (?b k)) [0..<?n]"
  have each: "\<exists>Y. ?b k = Inr Y \<and> length (col Y 0) = M c
           \<and> payoff_func c (last_col (simulated_prices c (rng k))) = Inr (col Y (N c))
           \<and> (\<forall>i. 1 \<le> i \<and> i \<le> N c \<longrightarrow> european_step c lstsq (simulated_prices c (rng k)) Y i)"
    for k
    by (rule batch_european_steps [OF v])
  have f: "for_batches (\<lambda>k. case ?b k of Inl e \<Rightarrow> Inl e | Inr Y \<Rightarrow> Inr (mean (col Y 0))) [0..<?n]
             = Inr (map (\<lambda>k. sum_list (col (projr (?b k)) 0) / real (M c)) [0..<?n])"
  proof (rule for_batches_ok, intro ballI)
    fix k
    obtain Y where "?b k = Inr Y" "length (col Y 0) = M c"
      using each [of k] by blast
    then show "(case ?b k of Inl e \<Rightarrow> Inl e | Inr Y \<Rightarrow> Inr (mean (col Y 0)))
        = Inr (sum_list (col (projr (?b k)) 0) / real (M c))"
      by (simp add: mean_def)
  qed
  have s: "\<not> samples c < 0" using v by (simp add: valid_config_def)
  have "bsde_solver_european c lstsq rng
          = Inr (map (\<lambda>Y. sum_list (col Y 0) / real (M c)) ?Ys, Num 0)"
    using s by (simp add: bsde_solver_european_def f comp_def)
  moreover have "?b k = Inr (?Ys ! k) \<and> length (col (?Ys ! k) 0) = M c
      \<and> (\<forall>m<M c. \<forall>n\<le>N c + 1.
            simulated_prices c (rng k) ! m ! n
              = S0 c * exp (\<Sum>j<n. (mu c - 0.5 * (sigma c)\<^sup>2) * (T c / real (N c))
                                    + sigma c * rng k m j))
      \<and> payoff_func c (last_col (simulated_prices c (rng k))) = Inr (col (?Ys ! k) (N c))
      \<and> (\<forall>i. 1 \<le> i \<and> i \<le> N c \<longrightarrow>
            european_step c lstsq (simulated_prices c (rng k)) (?Ys ! k) i)"
    if "k < ?n" for k
    using each [of k] that simulated_prices_nth [of _ c _ "rng k"] by auto
  ultimately show ?thesis
    by (intro exI [of _ ?Ys]) simp
qed

subsection \<open>The least-squares routine on two columns\<close>

lemma lstsq_sym2_diagonal:
  assumes "a11 \<le> a00" and "float_eps * 2 * a00 < a11" and "0 < a11"
  shows "lstsq_sym2 [[a00, 0], [0, a11]] [b0, b1] = [b0 / a00, b1 / a11]"
proof -
  have d: "sqrt ((a00 - a11)\<^sup>2) = a00 - a11" using assms by simp
  have p: "0 < a00" "\<not> a00 \<le> float_eps * 2 * a00" "\<not> a11 \<le> float_eps * 2 * a00"
    using assms by (auto simp: float_eps_def)
  show ?thesis
    using assms p by (simp add: lstsq_sym2_def Let_def d dot_def)
qed

lemma lstsq_sym2_truncated:
  assumes "a01 \<noteq> 0" and "0 \<le> d" and "d\<^sup>2 = (a00 - a11)\<^sup>2 + 4 * a01\<^sup>2"
    and "s1 = (a00 + a11 + d) / 2" and "s2 = (a00 + a11 - d) / 2"
    and "s2 \<le> float_eps * 2 * s1" and "\<not> s1 \<le> float_eps * 2 * s1"
  shows "lstsq_sym2 [[a00, a01], [a10, a11]] [b0, b1]
     = map (\<lambda>x. (a01 * b0 + (s1 - a00) * b1) / (s1 * (a01 * a01 + (s1 - a00) * (s1 - a00))) * x)
         [a01, s1 - a00]"
proof -
  have d: "sqrt ((a00 - a11)\<^sup>2 + 4 * a01\<^sup>2) = d"
    using assms(2,3) by (metis real_sqrt_abs abs_of_nonneg)
  show ?thesis
    using assms(1,6,7) unfolding lstsq_sym2_def Let_def
    by (simp add: d dot_def flip: assms(4,5))
qed

text \<open>
  Where the smaller singular value is above the cut-off, both are kept and the routine
  returns the exact solution of the system; it then solves the normal equations of every
  basis matrix with two columns.
\<close>

lemma lstsq_sym2_exact:
  fixes a00 a01 a11 b0 b1 :: real
  defines "d \<equiv> sqrt ((a00 - a11)\<^sup>2 + 4 * a01\<^sup>2)"
  defines "s1 \<equiv> (a00 + a11 + d) / 2"
  defines "s2 \<equiv> (a00 + a11 - d) / 2"
  assumes cut: "float_eps * 2 * s1 < s2"
  shows "\<exists>x0 x1. lstsq_sym2 [[a00, a01], [a10, a11]] [b0, b1] = [x0, x1]
           \<and> a00 * x0 + a01 * x1 = b0 \<and> a01 * x0 + a11 * x1 = b1"
proof -
  have d0: "0 \<le> d" by (simp add: d_def)
  have s12: "s2 \<le> s1" using d0 by (simp add: s1_def s2_def)
  have e: "0 < float_eps * 2" "float_eps * 2 < 1" by (simp_all add: float_eps_def)
  have s1: "0 < s1"
  proof (rule ccontr)
    assume "\<not> 0 < s1"
    then have "s1 \<le> 0" by simp
    then have "s1 \<le> float_eps * 2 * s1"
      using e by (metis less_eq_real_def mult_le_cancel_right2 linorder_not_less mult_less_cancel_right2)
    with cut s12 show False by simp
  qed
  have s2: "0 < s2" using cut s1 e by (meson mult_pos_pos order_less_trans)
  have k1: "\<not> s1 \<le> float_eps * 2 * s1" using cut s12 by simp
  have k2: "\<not> s2 \<le> float_eps * 2 * s1" using cut by simp
  show ?thesis
  proof (cases "a01 = 0")
    case True
    then have d: "d = \<bar>a00 - a11\<bar>" by (simp add: d_def)
    show ?thesis
    proof (cases "a11 \<le> a00")
      case le: True
      then have s: "s1 = a00" "s2 = a11" by (simp_all add: s1_def s2_def d)
      then show ?thesis
        using True le k1 k2 s1 s2 unfolding s
        by (simp add: lstsq_sym2_def Let_def d_def [symmetric] d dot_def)
    next
      case gt: False
      then have s: "s1 = a11" "s2 = a00" by (simp_all add: s1_def s2_def d)
      then show ?thesis
        using True gt k1 k2 s1 s2 unfolding s
        by (simp add: lstsq_sym2_def Let_def d_def [symmetric] d dot_def)
    qed
  next
    case False
    define p where "p = s1 - a00"
    define q where "q = s2 - a00"
    have dd: "d\<^sup>2 = (a00 - a11)\<^sup>2 + 4 * a01\<^sup>2" by (simp add: d_def)
    have pq: "p * q = - (a01 * a01)"
      using dd by (simp add: p_def q_def s1_def s2_def power2_eq_square algebra_simps)
        (simp add: field_simps)
    have sum: "p + q = a11 - a00" by (simp add: p_def q_def s1_def s2_def field_simps)
    have diff: "p - q = d" by (simp add: p_def q_def s1_def s2_def field_simps)
    have "d \<noteq> 0"
    proof
      assume "d = 0"
      with dd have "(a00 - a11)\<^sup>2 + 4 * a01\<^sup>2 = 0" by simp
      then have "a01\<^sup>2 = 0"
        by (smt (verit) zero_le_power2)
      with False show False by simp
    qed
    with d0 diff have dpos: "0 < p - q" by simp
    have p0: "p \<noteq> 0" and q0: "q \<noteq> 0" using pq False by auto
    have n1: "a01 * a01 + p * p = p * (p - q)" using pq by (simp add: algebra_simps)
    have n2: "a01 * a01 + q * q = q * (q - p)" using pq by (simp add: algebra_simps)
    define c1 where "c1 = (a01 * b0 + p * b1) / (s1 * (p * (p - q)))"
    define c2 where "c2 = (a01 * b0 + q * b1) / (s2 * (q * (q - p)))"
    have val: "lstsq_sym2 [[a00, a01], [a10, a11]] [b0, b1]
        = [c1 * a01 + c2 * a01, c1 * p + c2 * q]"
    proof -
      have "lstsq_sym2 [[a00, a01], [a10, a11]] [b0, b1]
          = map2 (+) (map (\<lambda>x. dot [a01, p] [b0, b1] / (s1 * dot [a01, p] [a01, p]) * x) [a01, p])
              (map (\<lambda>x. dot [a01, q] [b0, b1] / (s2 * dot [a01, q] [a01, q]) * x) [a01, q])"
        apply (simp only: lstsq_sym2_def Let_def nth_Cons_0 nth_Cons_Suc One_nat_def)
        apply (simp only: d_def [symmetric])
        apply (simp only: s1_def [symmetric] s2_def [symmetric])
        apply (simp only: p_def [symmetric] q_def [symmetric] False k1 k2 if_False)
        done
      then show ?thesis
        by (simp add: dot_def n1 n2 c1_def c2_def)
    qed
    have ev1: "a00 * a01 + a01 * p = s1 * a01" by (simp add: p_def algebra_simps)
    have ev2: "a00 * a01 + a01 * q = s2 * a01" by (simp add: q_def algebra_simps)
    have ev3: "a01 * a01 + a11 * p = s1 * p"
    proof -
      have h: "s1 - a11 = - q" using sum by (simp add: p_def)
      have "s1 * p - a11 * p = (s1 - a11) * p" by (simp add: algebra_simps)
      also have "\<dots> = - (p * q)" unfolding h by simp
      finally show ?thesis using pq by simp
    qed
    have ev4: "a01 * a01 + a11 * q = s2 * q"
    proof -
      have h: "s2 - a11 = - p" using sum by (simp add: q_def)
      have "s2 * q - a11 * q = (s2 - a11) * q" by (simp add: algebra_simps)
      also have "\<dots> = - (p * q)" unfolding h by simp
      finally show ?thesis using pq by simp
    qed
    have sc1: "c1 * s1 = (a01 * b0 + p * b1) / (p * (p - q))"
      using s1 by (simp add: c1_def)
    have sc2: "c2 * s2 = (a01 * b0 + q * b1) / (q * (q - p))"
      using s2 by (simp add: c2_def)
    have first: "a00 * (c1 * a01 + c2 * a01) + a01 * (c1 * p + c2 * q) = b0"
    proof -
      have "a00 * (c1 * a01 + c2 * a01) + a01 * (c1 * p + c2 * q)
          = c1 * (a00 * a01 + a01 * p) + c2 * (a00 * a01 + a01 * q)"
        by (simp add: algebra_simps)
      also have "\<dots> = (c1 * s1) * a01 + (c2 * s2) * a01"
        unfolding ev1 ev2 by (simp add: algebra_simps)
      also have "\<dots> = (a01 * b0 + p * b1) / (p * (p - q)) * a01
          + (a01 * b0 + q * b1) / (q * (q - p)) * a01"
        unfolding sc1 sc2 ..
      also have "\<dots> = - (a01 * a01) * b0 / (p * q)"
      proof -
        have nz: "p - q \<noteq> 0" "q - p \<noteq> 0" using dpos by simp_all
        have "(a01 * b0 + p * b1) / (p * (p - q)) * a01 + (a01 * b0 + q * b1) / (q * (q - p)) * a01
            + (a01 * a01) * b0 / (p * q) = 0"
          using p0 q0 nz by (simp add: divide_simps) algebra
        then show ?thesis by simp
      qed
      also have "\<dots> = b0" using pq False by simp
      finally show ?thesis .
    qed
    have second: "a01 * (c1 * a01 + c2 * a01) + a11 * (c1 * p + c2 * q) = b1"
    proof -
      have "a01 * (c1 * a01 + c2 * a01) + a11 * (c1 * p + c2 * q)
          = c1 * (a01 * a01 + a11 * p) + c2 * (a01 * a01 + a11 * q)"
        by (simp add: algebra_simps)
      also have "\<dots> = (c1 * s1) * p + (c2 * s2) * q"
        unfolding ev3 ev4 by (simp add: algebra_simps)
      also have "\<dots> = (a01 * b0 + p * b1) / (p * (p - q)) * p
          + (a01 * b0 + q * b1) / (q * (q - p)) * q"
        unfolding sc1 sc2 ..
      also have "\<dots> = b1"
      proof -
        have nz: "p - q \<noteq> 0" "q - p \<noteq> 0" using dpos by simp_all
        have "(a01 * b0 + p * b1) / (p * (p - q)) * p + (a01 * b0 + q * b1) / (q * (q - p)) * q
            - b1 = 0"
          using p0 q0 nz by (simp add: divide_simps) algebra
        then show ?thesis by simp
      qed
      finally show ?thesis .
    qed
    from val first second show ?thesis by blast
  qed
qed

lemma lstsq_sym2_solves:
  assumes X: "X \<noteq> []" "\<forall>row\<in>set X. length row = 2"
    and A: "matmul (np_T X) X = [[a00, a01], [a10, a11]]"
    and d: "0 \<le> d" "d\<^sup>2 = (a00 - a11)\<^sup>2 + 4 * a01\<^sup>2"
    and cut: "float_eps * 2 * ((a00 + a11 + d) / 2) < (a00 + a11 - d) / 2"
  shows "solves_normal_equations lstsq_sym2 X"
  unfolding solves_normal_equations_def
proof (intro allI impI)
  fix y :: "real list"
  assume y: "length y = length X"
  have sq: "sqrt ((a00 - a11)\<^sup>2 + 4 * a01\<^sup>2) = d"
    using d by (metis real_sqrt_abs abs_of_nonneg)
  have "matmul (np_T X) X
      = map (\<lambda>p. map (\<lambda>q. \<Sum>m<length X. X ! m ! p * X ! m ! q) [0..<2]) [0..<2]"
    using X by (rule normal_matrix_entries)
  then have sym: "a10 = a01"
    unfolding A by (simp add: upt_rec numeral_2_eq_2 mult.commute)
  obtain b0 b1 where b: "matvec (np_T X) y = [b0, b1]"
    using normal_rhs_entries [OF X y] by (simp add: upt_rec numeral_2_eq_2)
  have T: "length (np_T X) = 2" using np_T_rows [OF X] by simp
  obtain x0 x1 where x: "lstsq_sym2 [[a00, a01], [a10, a11]] [b0, b1] = [x0, x1]"
    "a00 * x0 + a01 * x1 = b0" "a01 * x0 + a11 * x1 = b1"
    using lstsq_sym2_exact [of a00 a11 a01 a10 b0 b1] cut unfolding sq by blast
  show "length (lstsq_sym2 (matmul (np_T X) X) (matvec (np_T X) y)) = length (np_T X)
        \<and> matvec (matmul (np_T X) X) (lstsq_sym2 (matmul (np_T X) X) (matvec (np_T X) y))
            = matvec (np_T X) y"
    unfolding A b x(1) T using x(2,3) by (simp add: matvec_def dot_def sym)
qed

subsection \<open>A run where nothing is cut off\<close>

lemma regular_valid: "valid_config regular_config"
  by (simp add: valid_config_def regular_config_def)

lemma regular_paths: "simulated_prices regular_config regular_draw = regular_prices"
  by (simp add: simulated_prices_def generate_stock_paths_def normal_draws_def
      regular_config_def regular_draw_def regular_prices_def upt_rec cumsum_def exp_add)

lemma regular_X:
  "generate_regression regular_config [1 / 2, 3 / 2] = Inr [[1, 1 / 2], [1, - (1 / 2)]]"
  by (simp add: generate_regression_def regular_config_def upt_rec)

lemma regular_system:
  "matmul (np_T [[1, 1 / 2], [1, - (1 / 2)]]) [[1, 1 / 2], [1, - (1 / 2)]] = [[2, 0], [0, 1 / 2]]"
  "matvec (np_T [[1, 1 / 2], [1, - (1 / 2)]]) [z0, z1] = [z0 + z1, z0 / 2 - z1 / 2]"
  by (simp_all add: matmul_def matvec_def np_T_def col_def dot_def upt_rec)

lemma regular_lstsq: "lstsq_sym2 [[2, 0], [0, 1 / 2]] [b0, b1] = [b0 / 2, b1 / (1 / 2)]"
  by (rule lstsq_sym2_diagonal) (simp_all add: float_eps_def)

lemma regular_fit:
  "matvec [[1, 1 / 2], [1, - (1 / 2)]]
     (lstsq_sym2
        (matmul (np_T [[1, 1 / 2], [1, - (1 / 2)]]) [[1, 1 / 2], [1, - (1 / 2)]])
        (matvec (np_T [[1, 1 / 2], [1, - (1 / 2)]]) [z0, z1]))
   = [z0, z1]"
  unfolding regular_system regular_lstsq by (simp add: matvec_def dot_def field_simps)

lemma regular_solves: "solves_normal_equations lstsq_sym2 [[1, 1 / 2], [1, - (1 / 2)]]"
  by (rule lstsq_sym2_solves [where d = "3 / 2", OF _ _ regular_system(1)])
    (simp_all add: float_eps_def power2_eq_square)

lemma regular_contract:
  "\<forall>k i X. k < nat (samples regular_config) \<and> 1 \<le> i \<and> i \<le> N regular_config
      \<and> generate_regression regular_config
            (col (simulated_prices regular_config (regular_rng k)) i) = Inr X
      \<longrightarrow> solves_normal_equations lstsq_sym2 X"
proof (intro allI impI)
  fix k i X
  assume a: "k < nat (samples regular_config) \<and> 1 \<le> i \<and> i \<le> N regular_config
      \<and> generate_regression regular_config
            (col (simulated_prices regular_config (regular_rng k)) i) = Inr X"
  then have i: "i = 1" by (simp add: regular_config_def)
  from a have "X = [[1, 1 / 2], [1, - (1 / 2)]]"
    by (simp add: i regular_rng_def regular_paths regular_prices_def col_def regular_X)
  then show "solves_normal_equations lstsq_sym2 X"
    using regular_solves by simp
qed

lemma regular_fields:
  "M regular_config = 2" "N regular_config = 1" "r regular_config = 0" "dt regular_config = 1"
  "samples regular_config = 1"
  by (simp_all add: regular_config_def)

lemma regular_payoff:
  "payoff_func regular_config S = Inr (map (\<lambda>s. max (1 - s) 0) S)"
  by (simp add: payoff_func_def regular_config_def)

lemma regular_european:
  "batch_european regular_config lstsq_sym2 (normal_draws regular_config regular_draw)
     = Inr [[1 / 4, 1 / 4], [0, 0]]"
  unfolding batch_european_unfold regular_paths
  by (simp add: regular_fields regular_payoff regular_prices_def last_col_def zeros_def
      set_last_col_def set_col_def col_def Let_def numeral_2_eq_2 regular_X regular_fit)

lemma regular_american:
  "batch_american regular_config lstsq_sym2 (normal_draws regular_config regular_draw)
     = Inr [[1 / 2, 1 / 4], [0, 0]]"
  unfolding batch_american_unfold regular_paths
  by (simp add: regular_fields regular_payoff regular_prices_def last_col_def zeros_def
      set_last_col_def set_col_def col_def Let_def numeral_2_eq_2 regular_X regular_fit)

lemma regular_solver_european:
  "bsde_solver_european regular_config lstsq_sym2 regular_rng = Inr ([1 / 8], Num 0)"
  by (simp add: bsde_solver_european_def regular_fields regular_rng_def regular_european
      col_def mean_def)

lemma regular_solver_american:
  "bsde_solver_american regular_config lstsq_sym2 regular_rng = Inr ([1 / 4], Num 0)"
  by (simp add: bsde_solver_american_def regular_fields regular_rng_def regular_american
      col_def mean_def)

theorem european_solver_steps_witness:
  "valid_config regular_config
   \<and> bsde_solver_european regular_config lstsq_sym2 regular_rng = Inr ([1 / 8], Num 0)
   \<and> batch_european regular_config lstsq_sym2 (normal_draws regular_config (regular_rng 0))
       = Inr [[1 / 4, 1 / 4], [0, 0]]
   \<and> generate_regression regular_config (col regular_prices 1)
       = Inr [[1, 1 / 2], [1, - (1 / 2)]]
   \<and> european_step regular_config lstsq_sym2 regular_prices [[1 / 4, 1 / 4], [0, 0]] 1"
proof -
  from european_solver_steps [OF regular_valid, of lstsq_sym2 regular_rng]
  obtain Ys where Ys: "\<forall>k<nat (samples regular_config).
      batch_european regular_config lstsq_sym2 (normal_draws regular_config (regular_rng k))
        = Inr (Ys ! k)
      \<and> (\<forall>i. 1 \<le> i \<and> i \<le> N regular_config \<longrightarrow>
            european_step regular_config lstsq_sym2
              (simulated_prices regular_config (regular_rng k)) (Ys ! k) i)"
    by blast
  have "(0::nat) < nat (samples regular_config)" "(1::nat) \<le> N regular_config"
    by (simp_all add: regular_config_def)
  with Ys have "batch_european regular_config lstsq_sym2
        (normal_draws regular_config (regular_rng 0)) = Inr (Ys ! 0)"
    "european_step regular_config lstsq_sym2
        (simulated_prices regular_config (regular_rng 0)) (Ys ! 0) 1"
    by auto
  then show ?thesis
    using regular_valid regular_solver_european
    by (simp add: regular_rng_def regular_european regular_paths)
      (simp add: regular_prices_def col_def regular_X)
qed

text \<open>
  The same input under the hypothesis of claim C9: the routine solves the normal equations
  of the run, and the American estimate \<open>1 / 4\<close> is above the European estimate \<open>1 / 8\<close>.
\<close>

theorem american_price_ge_european_witness:
  "valid_config regular_config
   \<and> solves_normal_equations lstsq_sym2 [[1, 1 / 2], [1, - (1 / 2)]]
   \<and> bsde_solver_european regular_config lstsq_sym2 regular_rng = Inr ([1 / 8], Num 0)
   \<and> bsde_solver_american regular_config lstsq_sym2 regular_rng = Inr ([1 / 4], Num 0)
   \<and> np_mean (Arr [1 / 8]) = Some (1 / 8) \<and> np_mean (Arr [1 / 4]) = Some (1 / 4)"
  using american_price_ge_european [OF regular_valid regular_contract]
    regular_valid regular_solves regular_solver_european regular_solver_american
  by (simp add: np_mean_def mean_def regular_fields)

subsection \<open>A run where a singular value is cut off\<close>

lemma truncation_valid: "valid_config truncation_config"
  by (simp add: valid_config_def truncation_config_def)

lemma truncation_paths: "simulated_prices truncation_config truncation_draw = truncation_prices"
  by (simp add: simulated_prices_def generate_stock_paths_def normal_draws_def
      truncation_config_def truncation_draw_def truncation_prices_def upt_rec cumsum_def
      numeral_3_eq_3 exp_add)

lemma step1_X:
  "generate_regression truncation_config [1000000001, 999999999 / 1000000000, 999999999 / 1000000000]
     = Inr [[1, - 1000000000], [1, 1 / 1000000000], [1, 1 / 1000000000]]"
  by (simp add: generate_regression_def truncation_config_def upt_rec)

lemma step2_X:
  "generate_regression truncation_config [1 / 2, 1, 3 / 2]
     = Inr [[1, 1 / 2], [1, 0], [1, - (1 / 2)]]"
  by (simp add: generate_regression_def truncation_config_def upt_rec)

lemma step3_X:
  "generate_regression truncation_config [1, 15 / 8, 1 / 8]
     = Inr [[1, 0], [1, - (7 / 8)], [1, 7 / 8]]"
  by (simp add: generate_regression_def truncation_config_def upt_rec)

lemma step1_lstsq:
  "lstsq_sym2 [[3, - (499999999999999999 / 500000000)],
               [- (499999999999999999 / 500000000),
                500000000000000000000000000000000001 / 500000000000000000]] [b0, b1]
     = [(b0 - 1000000000 * b1) / (1000000000000000001 * 1000000000000000001),
        - 1000000000 * (b0 - 1000000000 * b1) / (1000000000000000001 * 1000000000000000001)]"
proof -
  have "lstsq_sym2 [[3, - (499999999999999999 / 500000000)],
               [- (499999999999999999 / 500000000),
                500000000000000000000000000000000001 / 500000000000000000]] [b0, b1]
     = map (\<lambda>x. (- (499999999999999999 / 500000000) * b0 + (1000000000000000001 - 3) * b1)
                  / (1000000000000000001 * (- (499999999999999999 / 500000000) * - (499999999999999999 / 500000000)
                       + (1000000000000000001 - 3) * (1000000000000000001 - 3))) * x)
         [- (499999999999999999 / 500000000), 1000000000000000001 - 3]"
    by (rule lstsq_sym2_truncated
        [where d = "499999999999999999500000000000000000 / 500000000000000000 - 1 / 500000000000000000"
          and ?s2.0 = "2 + 2 / 1000000000000000000"])
      (simp_all add: float_eps_def power2_eq_square)
  then show ?thesis
    by (simp add: field_simps)
qed


lemma step1_fit:
  "matvec [[1, - 1000000000], [1, 1 / 1000000000], [1, 1 / 1000000000]]
     (lstsq_sym2
        (matmul (np_T [[1, - 1000000000], [1, 1 / 1000000000], [1, 1 / 1000000000]])
           [[1, - 1000000000], [1, 1 / 1000000000], [1, 1 / 1000000000]])
        (matvec (np_T [[1, - 1000000000], [1, 1 / 1000000000], [1, 1 / 1000000000]])
           [z0, z1, z2]))
   = [z0, 0, 0]"
proof -
  have A: "matmul (np_T [[1, - 1000000000], [1, 1 / 1000000000], [1, 1 / 1000000000]])
           [[1, - 1000000000], [1, 1 / 1000000000], [1, 1 / 1000000000]]
      = [[3, - (499999999999999999 / 500000000)],
               [- (499999999999999999 / 500000000),
                500000000000000000000000000000000001 / 500000000000000000]]"
    by (simp add: matmul_def np_T_def col_def dot_def upt_rec)
  have b: "matvec (np_T [[1, - 1000000000], [1, 1 / 1000000000], [1, 1 / 1000000000]]) [z0, z1, z2]
      = [z0 + z1 + z2, - 1000000000 * z0 + z1 / 1000000000 + z2 / 1000000000]"
    by (simp add: matvec_def np_T_def col_def dot_def upt_rec)
  show ?thesis
    unfolding A b step1_lstsq by (simp add: matvec_def dot_def field_simps)
qed

lemma well_conditioned_lstsq:
  "lstsq_sym2 [[3, 0], [0, 1 / 2]] [b0, b1] = [b0 / 3, b1 / (1 / 2)]"
  "lstsq_sym2 [[3, 0], [0, 49 / 32]] [b0, b1] = [b0 / 3, b1 / (49 / 32)]"
  by (rule lstsq_sym2_diagonal; simp add: float_eps_def)+

lemma step2_fit:
  "matvec [[1, 1 / 2], [1, 0], [1, - (1 / 2)]]
     (lstsq_sym2
        (matmul (np_T [[1, 1 / 2], [1, 0], [1, - (1 / 2)]]) [[1, 1 / 2], [1, 0], [1, - (1 / 2)]])
        (matvec (np_T [[1, 1 / 2], [1, 0], [1, - (1 / 2)]]) [z0, z1, z2]))
   = [(z0 + z1 + z2) / 3 + (z0 - z2) / 2, (z0 + z1 + z2) / 3, (z0 + z1 + z2) / 3 - (z0 - z2) / 2]"
proof -
  have A: "matmul (np_T [[1, 1 / 2], [1, 0], [1, - (1 / 2)]]) [[1, 1 / 2], [1, 0], [1, - (1 / 2)]]
      = [[3, 0], [0, 1 / 2]]"
    by (simp add: matmul_def np_T_def col_def dot_def upt_rec)
  have b: "matvec (np_T [[1, 1 / 2], [1, 0], [1, - (1 / 2)]]) [z0, z1, z2]
      = [z0 + z1 + z2, z0 / 2 - z2 / 2]"
    by (simp add: matvec_def np_T_def col_def dot_def upt_rec)
  show ?thesis
    unfolding A b well_conditioned_lstsq by (simp add: matvec_def dot_def field_simps)
qed

lemma step3_fit:
  "matvec [[1, 0], [1, - (7 / 8)], [1, 7 / 8]]
     (lstsq_sym2
        (matmul (np_T [[1, 0], [1, - (7 / 8)], [1, 7 / 8]]) [[1, 0], [1, - (7 / 8)], [1, 7 / 8]])
        (matvec (np_T [[1, 0], [1, - (7 / 8)], [1, 7 / 8]]) [z0, z1, z2]))
   = [(z0 + z1 + z2) / 3, (z0 + z1 + z2) / 3 - (z2 - z1) / 2, (z0 + z1 + z2) / 3 + (z2 - z1) / 2]"
proof -
  have A: "matmul (np_T [[1, 0], [1, - (7 / 8)], [1, 7 / 8]]) [[1, 0], [1, - (7 / 8)], [1, 7 / 8]]
      = [[3, 0], [0, 49 / 32]]"
    by (simp add: matmul_def np_T_def col_def dot_def upt_rec)
  have b: "matvec (np_T [[1, 0], [1, - (7 / 8)], [1, 7 / 8]]) [z0, z1, z2]
      = [z0 + z1 + z2, 7 * z2 / 8 - 7 * z1 / 8]"
    by (simp add: matvec_def np_T_def col_def dot_def upt_rec)
  show ?thesis
    unfolding A b well_conditioned_lstsq by (simp add: matvec_def dot_def field_simps)
qed

lemma truncation_european:
  "batch_european truncation_config lstsq_sym2 (normal_draws truncation_config truncation_draw)
     = Inr [[1 / 4, 1 / 4, 1 / 4, 1 / 4], [0, 1 / 4, 1 / 4, 1 / 4], [0, 1 / 4, 1 / 4, 1 / 4]]"
proof -
  have c: "M truncation_config = 3" "N truncation_config = 3" "r truncation_config = 0"
    "dt truncation_config = 1 / 3"
    by (simp_all add: truncation_config_def)
  have pf: "payoff_func truncation_config S = Inr (map (\<lambda>s. max (1 / 2 - s) 0) S)" for S
    by (simp add: payoff_func_def truncation_config_def)
  show ?thesis
    unfolding batch_european_unfold truncation_paths
    by (simp add: c pf truncation_prices_def last_col_def zeros_def set_last_col_def
        set_col_def col_def numeral_3_eq_3 Let_def step1_X step2_X step3_X
        step1_fit step2_fit step3_fit)
qed

lemma truncation_american:
  "batch_american truncation_config lstsq_sym2 (normal_draws truncation_config truncation_draw)
     = Inr [[11 / 48, 11 / 48, 1 / 4, 1 / 4], [0, 7 / 24, 1 / 4, 1 / 4], [0, 17 / 48, 3 / 8, 1 / 4]]"
proof -
  have c: "M truncation_config = 3" "N truncation_config = 3" "r truncation_config = 0"
    "dt truncation_config = 1 / 3"
    by (simp_all add: truncation_config_def)
  have pf: "payoff_func truncation_config S = Inr (map (\<lambda>s. max (1 / 2 - s) 0) S)" for S
    by (simp add: payoff_func_def truncation_config_def)
  show ?thesis
    unfolding batch_american_unfold truncation_paths
    by (simp add: c pf truncation_prices_def last_col_def zeros_def set_last_col_def
        set_col_def col_def numeral_3_eq_3 Let_def step1_X step2_X step3_X
        step1_fit step2_fit step3_fit)
qed

lemma truncation_fields: "samples truncation_config = 1"
  by (simp add: truncation_config_def)

text \<open>
  Claim C1, read literally, asks that \<open>\<alpha>\<close> solve the normal equations exactly. The
  routine does not return such a solution at step 1 of this run: with
  \<open>Y[:, 1] = [1/4, 1/4, 1/4]\<close> the product \<open>X\<^sup>T X \<alpha>\<close> is \<open>[1/4, - 250000000]\<close>, the right-hand
  side \<open>X\<^sup>T Y[:, 1]\<close> is \<open>[3/4, - 499999999999999999 / 2000000000]\<close>.
\<close>

theorem truncated_alpha_misses_normal_equations:
  "valid_config truncation_config
   \<and> batch_european truncation_config lstsq_sym2
        (normal_draws truncation_config (truncation_rng 0))
       = Inr [[1 / 4, 1 / 4, 1 / 4, 1 / 4], [0, 1 / 4, 1 / 4, 1 / 4], [0, 1 / 4, 1 / 4, 1 / 4]]
   \<and> generate_regression truncation_config
        (col (simulated_prices truncation_config (truncation_rng 0)) 1)
       = Inr [[1, - 1000000000], [1, 1 / 1000000000], [1, 1 / 1000000000]]
   \<and> lstsq_sym2
        (matmul (np_T [[1, - 1000000000], [1, 1 / 1000000000], [1, 1 / 1000000000]])
           [[1, - 1000000000], [1, 1 / 1000000000], [1, 1 / 1000000000]])
        (matvec (np_T [[1, - 1000000000], [1, 1 / 1000000000], [1, 1 / 1000000000]])
           [1 / 4, 1 / 4, 1 / 4])
       = [1 / 4000000000000000004, - (250000000 / 1000000000000000001)]
   \<and> matvec
        (matmul (np_T [[1, - 1000000000], [1, 1 / 1000000000], [1, 1 / 1000000000]])
           [[1, - 1000000000], [1, 1 / 1000000000], [1, 1 / 1000000000]])
        [1 / 4000000000000000004, - (250000000 / 1000000000000000001)]
       = [1 / 4, - 250000000]
   \<and> matvec (np_T [[1, - 1000000000], [1, 1 / 1000000000], [1, 1 / 1000000000]])
        [1 / 4, 1 / 4, 1 / 4]
       = [3 / 4, - (499999999999999999 / 2000000000)]
   \<and> [1 / 4, - 250000000] \<noteq> [3 / 4, - (499999999999999999 / 2000000000 :: real)]"
proof -
  have A: "matmul (np_T [[1, - 1000000000], [1, 1 / 1000000000], [1, 1 / 1000000000]])
           [[1, - 1000000000], [1, 1 / 1000000000], [1, 1 / 1000000000]]
      = [[3, - (499999999999999999 / 500000000)],
               [- (499999999999999999 / 500000000),
                500000000000000000000000000000000001 / 500000000000000000]]"
    by (simp add: matmul_def np_T_def col_def dot_def upt_rec)
  have b: "matvec (np_T [[1, - 1000000000], [1, 1 / 1000000000], [1, 1 / 1000000000]])
        [1 / 4, 1 / 4, 1 / 4]
       = [3 / 4, - (499999999999999999 / 2000000000)]"
    by (simp add: matvec_def np_T_def col_def dot_def upt_rec)
  have X: "generate_regression truncation_config
        (col (simulated_prices truncation_config (truncation_rng 0)) 1)
       = Inr [[1, - 1000000000], [1, 1 / 1000000000], [1, 1 / 1000000000]]"
    by (simp add: truncation_rng_def truncation_paths truncation_prices_def col_def step1_X)
  show ?thesis
    unfolding A b step1_lstsq
    using truncation_valid X
    by (simp add: truncation_rng_def truncation_european matvec_def dot_def)
qed

text \<open>
  The inequality of claim C9 fails on this run. The exercise floor raises \<open>Y\<close> on the third
  path at step 3; the regression at step 2 spreads the raise with a negative share on the
  first path; the rank-one fit at step 1 keeps the first path only. The European estimate
  is \<open>1 / 12\<close>, the American estimate \<open>11 / 144\<close>.
\<close>

theorem american_below_european:
  "valid_config truncation_config
   \<and> bsde_solver_european truncation_config lstsq_sym2 truncation_rng = Inr ([1 / 12], Num 0)
   \<and> bsde_solver_american truncation_config lstsq_sym2 truncation_rng = Inr ([11 / 144], Num 0)
   \<and> (11 / 144 :: real) < 1 / 12"
  using truncation_valid
  by (simp add: bsde_solver_european_def bsde_solver_american_def truncation_fields
      truncation_rng_def truncation_european truncation_american col_def mean_def)

subsection \<open>The spread variants on the example\<close>

lemma spread_draws: "normal_draws example_spread example_draw = [[0, 0], [0, ln 2]]"
  by (simp add: normal_draws_def example_spread_def example_draw_def upt_rec)

lemma spread_paths:
  "generate_stock_paths example_spread [[0, 0], [0, ln 2]]
     = ([[1, 1, 1], [1, 1, 2]], [[0, 0], [0, ln 2]])"
  by (simp add: generate_stock_paths_def example_spread_def cumsum_def)

lemma ln2_pos: "0 < ln (2::real)"
  by simp

lemma spread_picard:
  "picard_rhs example_spread [1 / 2, 1 / 2] [0, 1] [ln 2 / 2, ln 2 / 2]
     = Inr [1 / 2 + 7 * ln 2 / 25, 1 / 2 + 7 * ln 2 / 25]"
  by (simp add: picard_rhs_def np_min_axis0_def example_spread_def)

lemma spread_batch_european:
  "batch_european_spread example_spread lstsq_diagonal [[0, 0], [0, ln 2]]
     = Inr ([[1 / 2 + 7 * ln 2 / 25, 0], [1 / 2 + 7 * ln 2 / 25, 1]],
            [[0, ln 2 / 2], [0, ln 2 / 2]])"
  apply (simp add: batch_european_spread_def spread_paths)
  apply (simp add: example_spread_def payoff_func_european_spread_def last_col_def zeros_def set_last_col_def
      generate_regression_def col_def np_T_def matmul_def matvec_def dot_def lstsq_diagonal_def
      upt_rec set_col_def Let_def numeral_2_eq_2 numeral_3_eq_3 picard_rhs_def np_min_axis0_def)
  done



lemma spread_batch_american:
  "batch_american_spread example_spread lstsq_diagonal [[0, 0], [0, ln 2]]
     = Inr ([[1 / 2 + 7 * ln 2 / 25, 0], [1 / 2 + 7 * ln 2 / 25, 1]],
            [[0, ln 2 / 2], [0, ln 2 / 2]])"
proof -
  have "max 0 (1 / 2 + 7 * ln 2 / 25) = 1 / 2 + 7 * ln (2::real) / 25"
    using ln2_pos by (simp add: max_def)
  then show ?thesis
    by (simp add: batch_american_spread_def spread_paths)
      (simp add: example_spread_def payoff_func_american_spread_def last_col_def zeros_def
        set_last_col_def generate_regression_def col_def np_T_def matmul_def matvec_def dot_def
        lstsq_diagonal_def upt_rec set_col_def Let_def numeral_2_eq_2 numeral_3_eq_3
        picard_rhs_def np_min_axis0_def)
qed

text \<open>
  Claim C3, evaluated on the example. At the single step the vector \<open>Y[:, 1] - Z[:, 1] / \<sigma>\<close>
  is \<open>[- ln 2 / 2, 1 - ln 2 / 2]\<close>. The source takes its minimum over the two paths,
  \<open>- ln 2 / 2\<close>, for both paths; the minimum against zero path by path is \<open>- ln 2 / 2\<close> on
  the first path and \<open>0\<close> on the second. The value of the second path differs.
\<close>

theorem picard_minimum_over_paths:
  "batch_european_spread example_spread lstsq_diagonal
       (normal_draws example_spread (example_rng 0))
     = Inr ([[1 / 2 + 7 * ln 2 / 25, 0], [1 / 2 + 7 * ln 2 / 25, 1]],
            [[0, ln 2 / 2], [0, ln 2 / 2]])
   \<and> picard_rhs example_spread [1 / 2, 1 / 2] [0, 1] [ln 2 / 2, ln 2 / 2]
       = Inr [1 / 2 + 7 * ln 2 / 25, 1 / 2 + 7 * ln 2 / 25]
   \<and> picard_rhs_pointwise example_spread [1 / 2, 1 / 2] [0, 1] [ln 2 / 2, ln 2 / 2]
       = [1 / 2 + 7 * ln 2 / 25, 1 / 2 + ln 2 / 4]
   \<and> 1 / 2 + 7 * ln 2 / 25 \<noteq> 1 / 2 + ln (2::real) / 4"
proof -
  have "min (- (ln 2 / 2)) 0 = - (ln (2::real) / 2)" "min (1 - ln 2 / 2) 0 = (0::real)"
    using ln2_pos ln_2_less_1 by (simp_all add: min_def)
  then have "picard_rhs_pointwise example_spread [1 / 2, 1 / 2] [0, 1] [ln 2 / 2, ln 2 / 2]
       = [1 / 2 + 7 * ln 2 / 25, 1 / 2 + ln 2 / 4]"
    by (simp add: picard_rhs_pointwise_def example_spread_def)
  moreover have "1 / 2 + 7 * ln 2 / 25 \<noteq> 1 / 2 + ln (2::real) / 4"
    using ln2_pos by simp
  ultimately show ?thesis
    by (simp add: example_rng_def spread_draws spread_batch_european spread_picard)
qed

text \<open>
  Claim C2, evaluated on the example. The hedge process of the batch has the mean
  \<open>ln 2 / 2\<close> in its column 1, but the American spread solver returns the number 0 next to
  \<^verbatim>\<open>Y0_samples\<close>, and \<^verbatim>\<open>run\<close> reports the statistics of that 0.
\<close>

theorem american_spread_returns_zero:
  "batch_american_spread example_spread lstsq_diagonal
       (normal_draws example_spread (example_rng 0))
     = Inr ([[1 / 2 + 7 * ln 2 / 25, 0], [1 / 2 + 7 * ln 2 / 25, 1]],
            [[0, ln 2 / 2], [0, ln 2 / 2]])
   \<and> mean (col [[0, ln 2 / 2], [0, ln 2 / 2]] 1) = ln 2 / 2
   \<and> bsde_solver_american_spread example_spread lstsq_diagonal example_rng
       = Inr ([1 / 2 + 7 * ln 2 / 25], Num 0)
   \<and> run example_spread two_sigma
         (bsde_solver_american_spread example_spread lstsq_diagonal example_rng)
       = Inr (Some (1 / 2 + 7 * ln 2 / 25, 0,
                    [py_round (1 / 2 + 7 * ln 2 / 25) 4, py_round (1 / 2 + 7 * ln 2 / 25) 4]),
              Some (0, 0, [0, 0]))"
proof -
  have s: "samples example_spread = 1" by (simp add: example_spread_def)
  have solved: "bsde_solver_american_spread example_spread lstsq_diagonal example_rng
       = Inr ([1 / 2 + 7 * ln 2 / 25], Num 0)"
    by (simp add: bsde_solver_american_spread_def s example_rng_def spread_draws
        spread_batch_american col_def mean_def)
  have "run example_spread two_sigma (Inr ([1 / 2 + 7 * ln 2 / 25], Num 0))
       = Inr (Some (1 / 2 + 7 * ln 2 / 25, 0,
                    [py_round (1 / 2 + 7 * ln 2 / 25) 4, py_round (1 / 2 + 7 * ln 2 / 25) 4]),
              Some (0, 0, [0, 0]))"
    by (simp add: run_def confidence_interval_def np_mean_def np_std_def mean_def Let_def
        py_round_def round_half_even_def)
  with solved show ?thesis
    by (simp add: example_rng_def spread_draws spread_batch_american col_def mean_def)
qed


end
